theory Spec2Isabelle
  imports Main "HOL-Library.Word"
begin

unbundle bit_operations_syntax

section \<open>Data model\<close>

text \<open>
  The disassembler of \<^verbatim>\<open>disassembler_arm.cc\<close> reads instruction bytes through
  \<^verbatim>\<open>const uint8_t*\<close> pointers and writes text to a \<^verbatim>\<open>std::ostream\<close>.
  An address is a mathematical integer (C++ pointer arithmetic is defined only where it does
  not wrap), the byte buffer is a function from addresses to bytes, and \<^verbatim>\<open>uint32_t\<close>,
  \<^verbatim>\<open>int32_t\<close> and \<^verbatim>\<open>uint16_t\<close> values are 32-bit and 16-bit words. The stream is
  append-only, so every formatter is modelled by the text it appends.
\<close>

type_synonym addr = int
type_synonym memory = "addr \<Rightarrow> 8 word"
type_synonym u32 = "32 word"
type_synonym u16 = "16 word"

section \<open>Text rendering of numbers\<close>

text \<open>
  \<^verbatim>\<open>os << n\<close> writes an integer in decimal, \<^verbatim>\<open>%08x\<close> and \<^verbatim>\<open>%04x\<close> write lower-case
  hexadecimal padded with zeros to a minimal width, and \<^verbatim>\<open>%p\<close> and \<^verbatim>\<open>os << void*\<close>
  write \<^verbatim>\<open>0x\<close> followed by the hexadecimal address (the format of a pointer is left to
  the C library; this is the usual one).
\<close>

definition digit_char :: "nat \<Rightarrow> char" where
  "digit_char d = ''0123456789abcdef'' ! d"

fun show_base :: "nat \<Rightarrow> nat \<Rightarrow> string" where
  "show_base b n =
     (if b < 2 \<or> n < b then [digit_char n]
      else show_base b (n div b) @ [digit_char (n mod b)])"

declare show_base.simps [simp del]

definition show_nat :: "nat \<Rightarrow> string" where
  "show_nat n = show_base 10 n"

definition show_int :: "int \<Rightarrow> string" where
  "show_int i = (if i < 0 then ''-'' @ show_nat (nat (- i)) else show_nat (nat i))"

definition show_hex :: "nat \<Rightarrow> string" where
  "show_hex n = show_base 16 n"

definition pad0 :: "nat \<Rightarrow> string \<Rightarrow> string" where
  "pad0 width s = replicate (width - length s) (CHR ''0'') @ s"

definition show_ptr :: "addr \<Rightarrow> string" where
  "show_ptr p = ''0x'' @ show_hex (nat p)"

text \<open>
  \<^verbatim>\<open>os << p\<close> for a \<^verbatim>\<open>void*\<close> writes the pointer as a hexadecimal number with its base
  prefix, and the null pointer as \<^verbatim>\<open>0\<close>. The pointer written by \<^verbatim>\<open>DumpBranchTarget\<close>
  is computed from an instruction address and an offset and may leave the address space:
  it wraps at the width of a pointer. The width belongs to the platform, not to the source;
  64 bits are taken here.
\<close>

definition pointer_bits :: nat where
  "pointer_bits = 64"

definition show_void_ptr :: "addr \<Rightarrow> string" where
  "show_void_ptr p =
     (let v = nat (p mod 2 ^ pointer_bits)
      in if v = 0 then ''0'' else ''0x'' @ show_hex v)"

definition tabs3 :: string where
  "tabs3 = [CHR 0x09, CHR 0x09, CHR 0x09]"

definition newline :: string where
  "newline = [CHR 0x0A]"

section \<open>Operand formatters\<close>

definition ConditionCodeNames :: "string list" where
  "ConditionCodeNames =
     [''EQ'', ''NE'', ''CS'', ''CC'', ''MI'', ''PL'', ''VS'', ''VC'',
      ''HI'', ''LS'', ''GE'', ''LT'', ''GT'', ''LE'', ''AL'']"

definition DumpCond :: "u32 \<Rightarrow> string" where
  "DumpCond cond =
     (if cond < 15 then ConditionCodeNames ! unat cond
      else ''Unexpected condition: '' @ show_nat (unat cond))"

definition DumpReg :: "u32 \<Rightarrow> string" where
  "DumpReg reg =
     (if reg = 13 then ''SP''
      else if reg = 14 then ''LR''
      else if reg = 15 then ''PC''
      else ''r'' @ show_nat (unat reg))"

text \<open>
  The loop of \<^verbatim>\<open>DumpRegList\<close> runs \<^verbatim>\<open>i\<close> over 0..15 and carries the stream and the
  flag \<^verbatim>\<open>first\<close>.
\<close>

definition DumpRegList_step :: "u32 \<Rightarrow> string \<times> bool \<Rightarrow> nat \<Rightarrow> string \<times> bool" where
  "DumpRegList_step reg_list st i =
     (if reg_list AND push_bit i 1 \<noteq> 0
      then (fst st @ (if snd st then ''{'' else '', '') @ DumpReg (of_nat i), False)
      else st)"

definition DumpRegList :: "u32 \<Rightarrow> string" where
  "DumpRegList reg_list =
     (if reg_list = 0 then ''<no register list?>''
      else fst (foldl (DumpRegList_step reg_list) ([], True) [0..<16]) @ ''}'')"

definition DumpBranchTarget :: "addr \<Rightarrow> u32 \<Rightarrow> string" where
  "DumpBranchTarget instr_ptr imm32 =
     show_int (sint imm32) @ '' ('' @ show_void_ptr (instr_ptr + sint imm32) @ '')''"

section \<open>Primitive readers\<close>

text \<open>
  A reader returns the little-endian value together with the addresses it dereferences,
  so that the bytes a decode step touches can be stated. The bytes are promoted to
  \<^verbatim>\<open>int\<close>, shifted and combined; the result is converted to \<^verbatim>\<open>uint32_t\<close>.
\<close>

definition ReadU16 :: "memory \<Rightarrow> addr \<Rightarrow> u32 \<times> addr list" where
  "ReadU16 mem ptr =
     (ucast (mem ptr) OR push_bit 8 (ucast (mem (ptr + 1))), [ptr, ptr + 1])"

definition ReadU32 :: "memory \<Rightarrow> addr \<Rightarrow> u32 \<times> addr list" where
  "ReadU32 mem ptr =
     (ucast (mem ptr) OR push_bit 8 (ucast (mem (ptr + 1)))
        OR push_bit 16 (ucast (mem (ptr + 2))) OR push_bit 24 (ucast (mem (ptr + 3))),
      [ptr, ptr + 1, ptr + 2, ptr + 3])"

text \<open>What a decoder does: the text written to the stream and the bytes dereferenced.\<close>

record effect =
  os :: string
  touched :: "addr list"

section \<open>Fixed-width mode\<close>

definition DumpArm :: "memory \<Rightarrow> addr \<Rightarrow> effect" where
  "DumpArm mem instr_ptr =
     (let rd = ReadU32 mem instr_ptr in
      \<lparr>os = tabs3 @ show_ptr instr_ptr @ '': '' @ pad0 8 (show_hex (unat (fst rd))) @ newline,
       touched = snd rd\<rparr>)"

section \<open>Compressed mode, 32-bit encodings\<close>

text \<open>Load/store multiple: STM, LDM, STMDB, LDMDB, with PUSH and POP for base register 13.\<close>

definition Thumb32_LoadStoreMultiple :: "u32 \<Rightarrow> string" where
  "Thumb32_LoadStoreMultiple instr =
     (let op = drop_bit 23 instr AND 3;
          W = drop_bit 21 instr AND 1;
          L = drop_bit 20 instr AND 1;
          Rn = drop_bit 16 instr AND 0xF;
          reg_list = instr AND 0xFFFF
      in if op = 1 \<or> op = 2 then
           (if op = 1 then
              (if L = 0 then
                 ''STM '' @ DumpReg Rn @ (if W = 0 then '', '' else ''!, '')
               else if Rn \<noteq> 13 then
                 ''LDM '' @ DumpReg Rn @ (if W = 0 then '', '' else ''!, '')
               else ''POP '')
            else
              (if L = 0 then
                 (if Rn \<noteq> 13 then
                    ''STMDB '' @ DumpReg Rn @ (if W = 0 then '', '' else ''!, '')
                  else ''PUSH '')
               else ''LDMDB '' @ DumpReg Rn @ (if W = 0 then '', '' else ''!, '')))
           @ DumpRegList reg_list @ ''  // ''
         else [])"

definition Thumb32_DataProcessingModifiedImmediate :: "u32 \<Rightarrow> string" where
  "Thumb32_DataProcessingModifiedImmediate instr =
     (let i = drop_bit 26 instr AND 1;
          op3 = drop_bit 21 instr AND 0xF;
          S = drop_bit 20 instr AND 1;
          Rn = drop_bit 16 instr AND 0xF;
          imm3 = drop_bit 12 instr AND 7;
          Rd = drop_bit 8 instr AND 0xF;
          imm8 = instr AND 0xFF;
          imm32 = push_bit 12 i OR push_bit 8 imm3 OR imm8
      in (if op3 = 0x0 then ''AND''
          else if op3 = 0x1 then ''BIC''
          else if op3 = 0x2 then ''ORR''
          else if op3 = 0x3 then ''ORN''
          else if op3 = 0x4 then ''EOR''
          else if op3 = 0x8 then ''ADD''
          else if op3 = 0xA then ''ADC''
          else if op3 = 0xB then ''SBC''
          else if op3 = 0xD then ''SUB''
          else if op3 = 0xE then ''RSB''
          else ''UNKNOWN DPMI-'' @ show_nat (unat op3))
         @ (if S = 1 then ''S '' else '' '')
         @ DumpReg Rd @ '', '' @ DumpReg Rn
         @ '', ThumbExpand('' @ show_int (sint imm32) @ '')  // '')"

definition Thumb32_DataProcessingPlainBinaryImmediate :: "u32 \<Rightarrow> string" where
  "Thumb32_DataProcessingPlainBinaryImmediate instr =
     (let op3 = drop_bit 20 instr AND 0x1F;
          Rn = drop_bit 16 instr AND 0xF
      in if op3 = 0x04 then
           (let Rd = drop_bit 8 instr AND 0xF;
                i = drop_bit 26 instr AND 1;
                imm3 = drop_bit 12 instr AND 0x7;
                imm8 = instr AND 0xFF;
                imm16 = push_bit 12 Rn OR push_bit 11 i OR push_bit 8 imm3 OR imm8
            in ''MOVW '' @ DumpReg Rd @ '', #'' @ show_nat (unat imm16) @ ''  // '')
         else if op3 = 0x0A then
           (let Rd = drop_bit 8 instr AND 0xF;
                i = drop_bit 26 instr AND 1;
                imm3 = drop_bit 12 instr AND 0x7;
                imm8 = instr AND 0xFF;
                imm12 = push_bit 11 i OR push_bit 8 imm3 OR imm8
            in ''SUB.W '' @ DumpReg Rd @ '', '' @ DumpReg Rn
               @ '', #'' @ show_nat (unat imm12) @ ''  // '')
         else [])"

text \<open>
  Branches and miscellaneous control. \<^verbatim>\<open>imm32\<close> is an \<^verbatim>\<open>int32_t\<close>: the left shift
  keeps the low 32 bits and the right shift is arithmetic.
\<close>

definition Thumb32_BranchesAndMiscControl :: "addr \<Rightarrow> u32 \<Rightarrow> u32 \<Rightarrow> string" where
  "Thumb32_BranchesAndMiscControl instr_ptr instr op2 =
     (let op3 = drop_bit 12 instr AND 7
      in if op3 = 0 then
           (if op2 AND 0x38 \<noteq> 0x38 then
              (let S = drop_bit 26 instr AND 1;
                   J2 = drop_bit 11 instr AND 1;
                   J1 = drop_bit 13 instr AND 1;
                   imm6 = drop_bit 16 instr AND 0x3F;
                   imm11 = instr AND 0x7FF;
                   cond = drop_bit 22 instr AND 0xF;
                   imm32 = push_bit 20 S OR push_bit 19 J2 OR push_bit 18 J1
                             OR push_bit 12 imm6 OR push_bit 1 imm11;
                   imm32 = signed_drop_bit 11 (push_bit 11 imm32)
               in ''B'' @ DumpCond cond @ ''.W ''
                  @ DumpBranchTarget (instr_ptr + 4) imm32 @ ''  // '')
            else [])
         else if op3 = 2 \<or> op3 = 1 \<or> op3 = 3 then []
         else
           (let S = drop_bit 26 instr AND 1;
                J2 = drop_bit 11 instr AND 1;
                L = drop_bit 12 instr AND 1;
                J1 = drop_bit 13 instr AND 1;
                imm10 = drop_bit 16 instr AND 0x3FF;
                imm11 = instr AND 0x7FF;
                I1 = NOT (J1 XOR S);
                I2 = NOT (J2 XOR S);
                imm32 = push_bit 24 S OR push_bit 23 I1 OR push_bit 22 I2
                          OR push_bit 12 imm10 OR push_bit 1 imm11;
                imm32 = signed_drop_bit 8 (push_bit 8 imm32)
            in (if L = 0 then ''BX '' else ''BLX '')
               @ DumpBranchTarget (instr_ptr + 4) imm32))"

text \<open>
  Store single data item. \<^verbatim>\<open>imm8\<close> is a \<^verbatim>\<open>uint32_t\<close>, so
  \<^verbatim>\<open>(imm8 << 24) >> 24\<close> shifts logically before the value becomes an \<^verbatim>\<open>int32_t\<close>.
\<close>

definition Thumb32_StoreSingleDataItem :: "u32 \<Rightarrow> string" where
  "Thumb32_StoreSingleDataItem instr =
     (let op3 = drop_bit 21 instr AND 7
      in if op3 = 0x2 \<or> op3 = 0x6 then
           (let Rn = drop_bit 16 instr AND 0xF;
                Rt = drop_bit 12 instr AND 0xF
            in if op3 = 2 then
                 (let P = drop_bit 10 instr AND 1;
                      U = drop_bit 9 instr AND 1;
                      W = drop_bit 8 instr AND 1;
                      imm8 = instr AND 0xFF;
                      imm32 = drop_bit 24 (push_bit 24 imm8)
                  in if Rn = 13 \<and> P = 1 \<and> U = 0 \<and> W = 1 then
                       ''PUSH '' @ DumpReg Rt @ ''  // ''
                     else if Rn = 15 \<or> (P = 0 \<and> W = 0) then
                       ''UNDEFINED ''
                     else
                       (if P = 1 \<and> U = 1 \<and> W = 0 then ''STRT '' else ''STR '')
                       @ DumpReg Rt @ '', ['' @ DumpReg Rn
                       @ (if P = 0 \<and> W = 1 then ''], #'' @ show_int (sint imm32)
                          else '', #'' @ show_int (sint imm32) @ '']''
                               @ (if W = 1 then ''!'' else []))
                       @ ''  // '')
               else if op3 = 6 then
                 (let imm12 = instr AND 0xFFF
                  in ''STR.W '' @ DumpReg Rt @ '', ['' @ DumpReg Rn
                     @ '', #'' @ show_nat (unat imm12) @ '']  // '')
               else [])
         else [])"

definition Thumb32_LoadWord :: "u32 \<Rightarrow> string" where
  "Thumb32_LoadWord instr =
     (let op3 = drop_bit 23 instr AND 3;
          op4 = drop_bit 6 instr AND 0x3F;
          Rn = drop_bit 16 instr AND 0xF;
          Rt = drop_bit 12 instr AND 0xF
      in if op3 = 1 \<or> Rn = 15 then
           (let imm12 = instr AND 0xFFF
            in ''LDR.W '' @ DumpReg Rt @ '', ['' @ DumpReg Rn
               @ '', #'' @ show_nat (unat imm12) @ '']  // '')
         else if op4 = 0 then
           (let imm2 = drop_bit 4 instr AND 0xF;
                Rm = instr AND 0xF
            in ''LDR.W '' @ DumpReg Rt @ '', ['' @ DumpReg Rn @ '', '' @ DumpReg Rm
               @ (if imm2 \<noteq> 0 then '', LSL #'' @ show_nat (unat imm2) else [])
               @ '']  // '')
         else
           (let imm8 = instr AND 0xFF
            in ''LDRT '' @ DumpReg Rt @ '', ['' @ DumpReg Rn
               @ '', #'' @ show_nat (unat imm8) @ '']  // ''))"

text \<open>
  The \<^verbatim>\<open>switch (op1)\<close> of \<^verbatim>\<open>DumpThumb32\<close> for \<^verbatim>\<open>op1\<close> in 1..3: the text written
  between the address prefix and the raw encoding.
\<close>

definition Thumb32_switch :: "addr \<Rightarrow> u32 \<Rightarrow> u32 \<Rightarrow> u32 \<Rightarrow> string" where
  "Thumb32_switch instr_ptr instr op1 op2 =
     (if op1 = 1 then
        (if op2 \<in> {0x00, 0x01, 0x02, 0x03, 0x08, 0x09, 0x0A, 0x0B,
                    0x10, 0x11, 0x12, 0x13, 0x18, 0x19, 0x1A, 0x1B}
         then Thumb32_LoadStoreMultiple instr else [])
      else if op1 = 2 then
        (if instr AND 0x8000 = 0 \<and> op2 AND 0x20 = 0 then
           Thumb32_DataProcessingModifiedImmediate instr
         else if instr AND 0x8000 = 0 \<and> op2 AND 0x20 \<noteq> 0 then
           Thumb32_DataProcessingPlainBinaryImmediate instr
         else Thumb32_BranchesAndMiscControl instr_ptr instr op2)
      else if op1 = 3 then
        (if op2 \<in> {0x00, 0x02, 0x04, 0x06, 0x08, 0x0A, 0x0C, 0x0E} then
           Thumb32_StoreSingleDataItem instr
         else if op2 \<in> {0x05, 0x0D, 0x15, 0x1D} then
           Thumb32_LoadWord instr
         else [])
      else [])"

section \<open>Compressed mode, 16-bit encodings\<close>

text \<open>
  The locals of \<^verbatim>\<open>DumpThumb16\<close> are \<^verbatim>\<open>uint16_t\<close>; an operand of \<^verbatim>\<open><<\<close> is promoted
  to \<^verbatim>\<open>int\<close> before it is shifted and written.
\<close>

definition Thumb16_ShiftAddSubMoveCompare :: "u16 \<Rightarrow> string" where
  "Thumb16_ShiftAddSubMoveCompare instr =
     (let opcode2 = drop_bit 9 instr
      in if opcode2 \<in> {0x0, 0x1, 0x2, 0x3, 0x4, 0x5, 0x6, 0x7, 0x8, 0x9, 0xA, 0xB} then
           (let imm5 = drop_bit 6 instr AND 0x1F;
                Rm = drop_bit 3 instr AND 7;
                Rd = instr AND 7
            in (if opcode2 \<le> 3 then ''LSLS ''
                else if opcode2 \<le> 7 then ''LSRS ''
                else ''ASRS '')
               @ DumpReg (ucast Rd) @ '', '' @ DumpReg (ucast Rm)
               @ '', #'' @ show_nat (unat imm5) @ ''  // '')
         else if opcode2 \<in> {0xC, 0xD, 0xE, 0xF} then
           (let imm3_or_Rm = drop_bit 6 instr AND 7;
                Rn = drop_bit 3 instr AND 7;
                Rd = instr AND 7
            in (if opcode2 AND 2 \<noteq> 0 \<and> imm3_or_Rm = 0 then ''MOV ''
                else if opcode2 AND 1 = 0 then ''ADDS ''
                else ''SUBS '')
               @ DumpReg (ucast Rd) @ '', '' @ DumpReg (ucast Rn)
               @ (if opcode2 AND 2 = 0 then '', '' @ DumpReg (ucast imm3_or_Rm)
                  else if imm3_or_Rm \<noteq> 0 then '', #'' @ show_nat (unat imm3_or_Rm)
                  else [])
               @ ''  // '')
         else if opcode2 \<in> {0x10, 0x11, 0x12, 0x13, 0x14, 0x15, 0x16, 0x17,
                              0x18, 0x19, 0x1A, 0x1B, 0x1C, 0x1D, 0x1E, 0x1F} then
           (let Rn = drop_bit 8 instr AND 7;
                imm8 = instr AND 0xFF;
                sel = drop_bit 2 opcode2
            in (if sel = 4 then ''MOVS ''
                else if sel = 5 then ''CMP ''
                else if sel = 6 then ''ADDS ''
                else if sel = 7 then ''SUBS ''
                else [])
               @ DumpReg (ucast Rn) @ '', #'' @ show_nat (unat imm8) @ ''  // '')
         else [])"

definition Thumb16_SpecialDataBranchExchange :: "u16 \<Rightarrow> string" where
  "Thumb16_SpecialDataBranchExchange instr =
     (let opcode2 = drop_bit 6 instr AND 0x0F
      in if opcode2 \<in> {0x0, 0x1, 0x2, 0x3} then
           (let DN = drop_bit 7 instr AND 1;
                Rm = drop_bit 3 instr AND 0xF;
                Rdn = instr AND 7;
                DN_Rdn = push_bit 3 DN OR Rdn
            in ''ADD '' @ DumpReg (ucast DN_Rdn) @ '', '' @ DumpReg (ucast Rm) @ ''  // '')
         else if opcode2 \<in> {0x8, 0x9, 0xA, 0xB} then
           (let DN = drop_bit 7 instr AND 1;
                Rm = drop_bit 3 instr AND 0xF;
                Rdn = instr AND 7;
                DN_Rdn = push_bit 3 DN OR Rdn
            in ''MOV '' @ DumpReg (ucast DN_Rdn) @ '', '' @ DumpReg (ucast Rm) @ ''  // '')
         else if opcode2 \<in> {0x5, 0x6, 0x7} then
           (let N = drop_bit 7 instr AND 1;
                Rm = drop_bit 3 instr AND 0xF;
                Rn = instr AND 7;
                N_Rn = push_bit 3 N OR Rn
            in ''CMP '' @ DumpReg (ucast N_Rn) @ '', '' @ DumpReg (ucast Rm) @ ''  // '')
         else if opcode2 \<in> {0xC, 0xD, 0xE, 0xF} then
           (let Rm = drop_bit 3 instr AND 0xF
            in (if opcode2 AND 0x2 = 0 then ''BX '' else ''BLX '')
               @ DumpReg (ucast Rm) @ ''  // '')
         else [])"

definition Thumb16_Miscellaneous :: "u16 \<Rightarrow> string" where
  "Thumb16_Miscellaneous instr =
     (let opcode2 = drop_bit 5 instr AND 0x7F
      in if opcode2 \<in> {0x00, 0x01, 0x02, 0x03, 0x04, 0x05, 0x06, 0x07} then
           (let imm7 = uint (instr AND 0x7F)
            in (if opcode2 AND 4 = 0 then ''ADD SP, SP, #'' else ''SUB SP, SP, #'')
               @ show_int (push_bit 2 imm7) @ ''  // '')
         else if opcode2 \<in> {0x78, 0x79, 0x7A, 0x7B, 0x7C, 0x7D, 0x7E, 0x7F} then
           (let opA = drop_bit 4 instr AND 0xF;
                opB = instr AND 0xF
            in if opB = 0 then
                 (if opA = 0 then ''NOP  // ''
                  else if opA = 1 then ''YIELD  // ''
                  else if opA = 2 then ''WFE  // ''
                  else if opA = 3 then ''SEV  // ''
                  else [])
               else ''IT '' @ show_void_ptr (uint opB) @ '' '' @ DumpCond (ucast opA)
                    @ ''  // '')
         else [])"

definition Thumb16_LoadStoreSingle :: "u16 \<Rightarrow> string" where
  "Thumb16_LoadStoreSingle instr =
     (let opA = drop_bit 12 instr
      in if opA = 0x6 then
           (let imm5 = drop_bit 6 instr AND 0x1F;
                Rn = drop_bit 3 instr AND 7;
                Rt = instr AND 7
            in (if instr AND 0x800 = 0 then ''STR '' else ''LDR '')
               @ DumpReg (ucast Rt) @ '', ['' @ DumpReg (ucast Rn)
               @ '', #'' @ show_int (push_bit 2 (uint imm5)) @ '']  // '')
         else if opA = 0x9 then
           (let imm8 = instr AND 0xFF;
                Rt = drop_bit 8 instr AND 7
            in (if instr AND 0x800 = 0 then ''STR '' else ''LDR '')
               @ DumpReg (ucast Rt)
               @ '', [SP, #'' @ show_int (push_bit 2 (uint imm8)) @ '']  // '')
         else [])"

definition Thumb16_Branch :: "addr \<Rightarrow> u16 \<Rightarrow> string" where
  "Thumb16_Branch instr_ptr instr =
     (let imm11 = instr AND 0x7FFF;
          imm32 = push_bit 1 (ucast imm11 :: u32);
          imm32 = signed_drop_bit 20 (push_bit 20 imm32)
      in ''B '' @ DumpBranchTarget (instr_ptr + 4) imm32 @ ''  // '')"

text \<open>
  The chain of tests in the \<^verbatim>\<open>else\<close> branch of \<^verbatim>\<open>DumpThumb16\<close>: the text written
  between the address prefix and the raw encoding.
\<close>

definition Thumb16_decode :: "addr \<Rightarrow> u16 \<Rightarrow> string" where
  "Thumb16_decode instr_ptr instr =
     (let opcode1 = drop_bit 10 instr
      in if opcode1 < 0x10 then Thumb16_ShiftAddSubMoveCompare instr
         else if opcode1 = 0x11 then Thumb16_SpecialDataBranchExchange instr
         else if instr AND 0xF000 = 0xB000 then Thumb16_Miscellaneous instr
         else if instr AND 0xF000 = 0x5000 \<or> instr AND 0xE000 = 0x6000
                 \<or> instr AND 0xE000 = 0x8000 then Thumb16_LoadStoreSingle instr
         else if opcode1 = 0x38 \<or> opcode1 = 0x39 then Thumb16_Branch instr_ptr instr
         else [])"

definition is_32bit :: "u16 \<Rightarrow> bool" where
  "is_32bit instr \<longleftrightarrow> instr AND 0xF000 = 0xF000 \<or> instr AND 0xF800 = 0xE800"

section \<open>The two compressed-mode decoders\<close>

text \<open>
  \<^verbatim>\<open>DumpThumb16\<close> hands a 32-bit encoding to \<^verbatim>\<open>DumpThumb32\<close>, and \<^verbatim>\<open>DumpThumb32\<close>
  calls \<^verbatim>\<open>DumpThumb16\<close> back when \<^verbatim>\<open>op1\<close> is 0. Each returns what it did and the number
  of bytes consumed.
\<close>

definition Thumb32_instr :: "memory \<Rightarrow> addr \<Rightarrow> u32" where
  "Thumb32_instr mem instr_ptr =
     push_bit 16 (fst (ReadU16 mem instr_ptr)) OR fst (ReadU16 mem (instr_ptr + 2))"

definition Thumb16_instr :: "memory \<Rightarrow> addr \<Rightarrow> u16" where
  "Thumb16_instr mem instr_ptr = ucast (fst (ReadU16 mem instr_ptr))"

function DumpThumb32 :: "memory \<Rightarrow> addr \<Rightarrow> effect \<times> nat"
  and DumpThumb16 :: "memory \<Rightarrow> addr \<Rightarrow> effect \<times> nat" where
  "DumpThumb32 mem instr_ptr =
     (let instr = Thumb32_instr mem instr_ptr;
          rd = snd (ReadU16 mem instr_ptr) @ snd (ReadU16 mem (instr_ptr + 2));
          op1 = drop_bit 27 instr AND 3;
          op2 = drop_bit 20 instr AND 0x7F;
          pre = tabs3 @ show_ptr instr_ptr @ '': ''
      in if op1 = 0 then
           (let r = DumpThumb16 mem instr_ptr
            in (\<lparr>os = pre @ os (fst r), touched = rd @ touched (fst r)\<rparr>, snd r))
         else
           (\<lparr>os = pre @ Thumb32_switch instr_ptr instr op1 op2
                    @ pad0 8 (show_hex (unat instr)) @ newline,
             touched = rd\<rparr>, 4))"
| "DumpThumb16 mem instr_ptr =
     (let instr = Thumb16_instr mem instr_ptr;
          rd = snd (ReadU16 mem instr_ptr)
      in if is_32bit instr then
           (let r = DumpThumb32 mem instr_ptr
            in (\<lparr>os = os (fst r), touched = rd @ touched (fst r)\<rparr>, snd r))
         else
           (\<lparr>os = tabs3 @ show_ptr instr_ptr @ '': '' @ Thumb16_decode instr_ptr instr
                    @ pad0 4 (show_hex (unat instr)) @ newline,
             touched = rd\<rparr>, 2))"
  by pat_completeness auto

text \<open>
  Termination: \<^verbatim>\<open>op1\<close> is bits 12..11 of the first halfword, and a halfword that
  \<^verbatim>\<open>DumpThumb16\<close> classifies as 32-bit has one of these bits set.
\<close>

lemma op1_zero_bits:
  fixes h l :: u32
  assumes "drop_bit 27 (push_bit 16 h OR l) AND 3 = 0"
  shows "\<not> bit h 11 \<and> \<not> bit h 12"
proof -
  let ?w = "drop_bit 27 (push_bit 16 h OR l) AND (3::u32)"
  have "\<not> bit ?w 0" "\<not> bit ?w 1" using assms by simp_all
  then show ?thesis by (simp add: bit_simps)
qed

lemma is_32bit_bits:
  fixes h :: u32
  assumes "is_32bit (ucast h)"
  shows "bit h 11 \<or> bit h 12"
proof -
  from assms consider "(ucast h :: u16) AND 0xF000 = 0xF000"
    | "(ucast h :: u16) AND 0xF800 = 0xE800"
    by (auto simp: is_32bit_def)
  then show ?thesis
  proof cases
    case 1
    then have "bit ((ucast h :: u16) AND 0xF000) 12 = bit (0xF000 :: u16) 12" by simp
    then show ?thesis by (simp add: bit_simps)
  next
    case 2
    then have "bit ((ucast h :: u16) AND 0xF800) 11 = bit (0xE800 :: u16) 11" by simp
    then show ?thesis by (simp add: bit_simps)
  qed
qed

lemma is_32bit_op1:
  "is_32bit (Thumb16_instr mem p) \<Longrightarrow> drop_bit 27 (Thumb32_instr mem p) AND 3 \<noteq> 0"
  unfolding Thumb16_instr_def Thumb32_instr_def
  using op1_zero_bits is_32bit_bits by blast

termination DumpThumb32
  by (relation "measure (\<lambda>x. case x of
                    Inl (mem, p) \<Rightarrow> 1
                  | Inr (mem, p) \<Rightarrow> if is_32bit (Thumb16_instr mem p) then 2 else 0)")
     (auto dest: is_32bit_op1)

declare DumpThumb32.simps [simp del] DumpThumb16.simps [simp del]

lemma DumpThumb32_op1:
  "drop_bit 27 (Thumb32_instr mem p) AND 3 \<noteq> 0 \<Longrightarrow>
   DumpThumb32 mem p =
     (\<lparr>os = tabs3 @ show_ptr p @ '': ''
              @ Thumb32_switch p (Thumb32_instr mem p)
                  (drop_bit 27 (Thumb32_instr mem p) AND 3)
                  (drop_bit 20 (Thumb32_instr mem p) AND 0x7F)
              @ pad0 8 (show_hex (unat (Thumb32_instr mem p))) @ newline,
       touched = snd (ReadU16 mem p) @ snd (ReadU16 mem (p + 2))\<rparr>, 4)"
  by (subst DumpThumb32.simps) (simp add: Let_def)

lemma DumpThumb16_local:
  "\<not> is_32bit (Thumb16_instr mem p) \<Longrightarrow>
   DumpThumb16 mem p =
     (\<lparr>os = tabs3 @ show_ptr p @ '': '' @ Thumb16_decode p (Thumb16_instr mem p)
              @ pad0 4 (show_hex (unat (Thumb16_instr mem p))) @ newline,
       touched = snd (ReadU16 mem p)\<rparr>, 2)"
  by (subst DumpThumb16.simps) (simp add: Let_def)

lemma DumpThumb16_long:
  "is_32bit (Thumb16_instr mem p) \<Longrightarrow>
   DumpThumb16 mem p =
     (\<lparr>os = os (fst (DumpThumb32 mem p)),
       touched = snd (ReadU16 mem p) @ touched (fst (DumpThumb32 mem p))\<rparr>,
      snd (DumpThumb32 mem p))"
  by (subst DumpThumb16.simps) (simp add: Let_def)

lemma DumpThumb16_consumed:
  "snd (DumpThumb16 mem p) = (if is_32bit (Thumb16_instr mem p) then 4 else 2)"
  by (simp add: DumpThumb16_long DumpThumb16_local DumpThumb32_op1 is_32bit_op1)

section \<open>Mode dispatcher\<close>

definition effect_append :: "effect \<Rightarrow> effect \<Rightarrow> effect" where
  "effect_append a b = \<lparr>os = os a @ os b, touched = touched a @ touched b\<rparr>"

definition no_effect :: effect where
  "no_effect = \<lparr>os = [], touched = []\<rparr>"

text \<open>
  The loop \<^verbatim>\<open>for (cur = begin; cur < end; cur += 4) DumpArm(os, cur)\<close>.
\<close>

function DumpArm_loop :: "memory \<Rightarrow> addr \<Rightarrow> addr \<Rightarrow> effect" where
  "DumpArm_loop mem cur end_p =
     (if cur < end_p
      then effect_append (DumpArm mem cur) (DumpArm_loop mem (cur + 4) end_p)
      else no_effect)"
  by pat_completeness auto
termination
  by (relation "measure (\<lambda>(mem, cur, end_p). nat (end_p - cur))") auto

declare DumpArm_loop.simps [simp del]

text \<open>
  The loop \<^verbatim>\<open>for (cur = begin; cur < end;) cur += DumpThumb16(os, cur)\<close>; the result
  carries the value of \<^verbatim>\<open>cur\<close> at which the loop stops.
\<close>

function DumpThumb_loop :: "memory \<Rightarrow> addr \<Rightarrow> addr \<Rightarrow> effect \<times> addr" where
  "DumpThumb_loop mem cur end_p =
     (if cur < end_p
      then (let r = DumpThumb16 mem cur;
                rest = DumpThumb_loop mem (cur + int (snd r)) end_p
            in (effect_append (fst r) (fst rest), snd rest))
      else (no_effect, cur))"
  by pat_completeness auto
termination
  by (relation "measure (\<lambda>(mem, cur, end_p). nat (end_p - cur))")
     (auto simp: DumpThumb16_consumed)

declare DumpThumb_loop.simps [simp del]

definition Dump :: "memory \<Rightarrow> addr \<Rightarrow> addr \<Rightarrow> effect" where
  "Dump mem begin_p end_p =
     (if begin_p AND 1 = 0 then DumpArm_loop mem begin_p end_p
      else (let begin_p = begin_p AND NOT 1;
                end_p = end_p AND NOT 1
            in fst (DumpThumb_loop mem begin_p end_p)))"

section \<open>Notions used to state the properties\<close>

text \<open>
  What the list of a 16-bit mask should read: the members are the indices of the set
  bits in increasing order, and the items are joined by a separator.
\<close>

fun join_with :: "string \<Rightarrow> string list \<Rightarrow> string" where
  "join_with sep [] = []"
| "join_with sep [x] = x"
| "join_with sep (x # y # ys) = x @ sep @ join_with sep (y # ys)"

definition reg_list_members :: "u16 \<Rightarrow> nat list" where
  "reg_list_members rmask = filter (bit rmask) [0..<16]"

text \<open>
  The register names as the specification gives them: index 13 is the stack pointer, 14
  the link register, 15 the program counter, and an index 0..12 reads \<^verbatim>\<open>r\<close> followed by
  the index in decimal.
\<close>

definition register_names :: "string list" where
  "register_names =
     [''r0'', ''r1'', ''r2'', ''r3'', ''r4'', ''r5'', ''r6'', ''r7'', ''r8'', ''r9'',
      ''r10'', ''r11'', ''r12'', ''SP'', ''LR'', ''PC'']"

definition reg_name :: "nat \<Rightarrow> string" where
  "reg_name n = register_names ! n"

text \<open>
  The offset as the instruction set defines it: the low 11 bits of the unit, shifted left
  by one and sign-extended from 12 bits.
\<close>

definition branch16_offset :: "u16 \<Rightarrow> int" where
  "branch16_offset instr = signed_take_bit 11 (push_bit 1 (take_bit 11 (uint instr)))"

text \<open>A buffer holding the bytes \<open>bs\<close> from address \<open>base\<close> on, and zero elsewhere.\<close>

definition bytes_at :: "addr \<Rightarrow> 8 word list \<Rightarrow> memory" where
  "bytes_at base bs =
     (\<lambda>a. if base \<le> a \<and> a < base + int (length bs) then bs ! nat (a - base) else 0)"

abbreviation two_words :: memory where
  "two_words \<equiv> bytes_at 0x1000 [0x01, 0x02, 0x03, 0x04, 0x05, 0x06, 0x07, 0x08]"

abbreviation blx_unit :: memory where
  "blx_unit \<equiv> bytes_at 0x1000 [0x00, 0xF0, 0x00, 0xD0]"

lemmas read_eval = Thumb16_instr_def Thumb32_instr_def ReadU16_def ReadU32_def bytes_at_def

section \<open>Rendering numbers: unfolding lemmas\<close>

lemma show_base_digit: "n < b \<Longrightarrow> show_base b n = [digit_char n]"
  by (subst show_base.simps) simp

lemma show_base_step:
  "2 \<le> b \<Longrightarrow> b \<le> n \<Longrightarrow> show_base b n = show_base b (n div b) @ [digit_char (n mod b)]"
  by (subst show_base.simps) simp

lemmas show_eval = show_nat_def show_int_def show_hex_def show_ptr_def show_void_ptr_def
  pointer_bits_def pad0_def show_base_digit show_base_step digit_char_def

section \<open>Operand formatters: properties\<close>

text \<open>
  Claim C6. Rendering a condition field value 0..14 gives the mnemonic at that index of
  the table EQ, NE, CS, CC, MI, PL, VS, VC, HI, LS, GE, LT, GT, LE, AL, and rendering the
  value 15 gives the diagnostic text \<^verbatim>\<open>Unexpected condition: 15\<close> instead of a table
  entry. All sixteen values of the 4-bit field are listed.
\<close>

theorem DumpCond_table:
  "map DumpCond [0, 1, 2, 3, 4, 5, 6, 7, 8, 9, 10, 11, 12, 13, 14] =
     [''EQ'', ''NE'', ''CS'', ''CC'', ''MI'', ''PL'', ''VS'', ''VC'',
      ''HI'', ''LS'', ''GE'', ''LT'', ''GT'', ''LE'', ''AL'']
   \<and> DumpCond 15 = ''Unexpected condition: 15''"
  by (simp add: DumpCond_def ConditionCodeNames_def show_eval)

text \<open>
  Claim C8. The register set 0x0000 renders as the placeholder
  \<^verbatim>\<open><no register list?>\<close>, which is not the empty brace pair.
\<close>

theorem DumpRegList_empty:
  "DumpRegList 0 = ''<no register list?>'' \<and> DumpRegList 0 \<noteq> ''{}''"
  by (simp add: DumpRegList_def)

subsection \<open>Non-empty register lists\<close>

lemma join_with_Cons:
  "join_with sep (x # ys) = x @ (if ys = [] then [] else sep @ join_with sep ys)"
  by (cases ys) simp_all

lemma DumpRegList_step_bit:
  "DumpRegList_step rl (acc, first) i =
     (if bit rl i then (acc @ (if first then ''{'' else '', '') @ DumpReg (of_nat i), False)
      else (acc, first))"
  unfolding DumpRegList_step_def push_bit_of_1 and_exp_eq_0_iff_not_bit by simp

lemma DumpRegList_foldl:
  "foldl (DumpRegList_step rl) (acc, first) xs =
     (acc @ (if filter (bit rl) xs = [] then []
             else (if first then ''{'' else '', '')
                  @ join_with '', '' (map (\<lambda>i. DumpReg (of_nat i)) (filter (bit rl) xs))),
      first \<and> filter (bit rl) xs = [])"
proof (induction xs arbitrary: acc first)
  case Nil
  show ?case by simp
next
  case (Cons x xs)
  show ?case
    by (simp add: DumpRegList_step_bit Cons.IH join_with_Cons)
qed

lemma reg_list_members_set: "set (reg_list_members rmask) = {i. bit rmask i}"
  by (auto simp: reg_list_members_def dest: bit_imp_le_length)

lemma reg_list_members_nonempty: "rmask \<noteq> 0 \<Longrightarrow> reg_list_members rmask \<noteq> []"
proof -
  assume "rmask \<noteq> 0"
  then obtain n where "bit rmask n" by (auto simp: bit_eq_iff)
  then have "n \<in> set (reg_list_members rmask)" by (simp add: reg_list_members_set)
  then show ?thesis by auto
qed

lemma filter_bit_ucast:
  "filter (bit (ucast (rmask :: u16) :: u32)) [0..<16] = reg_list_members rmask"
  unfolding reg_list_members_def
  by (rule filter_cong) (auto simp: bit_ucast_iff)

text \<open>
  Claim C10. For every non-zero 16-bit register mask the rendered list is \<^verbatim>\<open>{\<close>, the
  names of exactly the registers whose mask bit is set, in increasing index order and
  separated by a comma and a space, and \<^verbatim>\<open>}\<close>.
\<close>

theorem DumpRegList_members:
  fixes rmask :: u16
  assumes "rmask \<noteq> 0"
  shows "DumpRegList (ucast rmask) =
           ''{'' @ join_with '', '' (map (\<lambda>i. DumpReg (of_nat i)) (reg_list_members rmask))
           @ ''}''
         \<and> reg_list_members rmask \<noteq> []
         \<and> sorted (reg_list_members rmask) \<and> distinct (reg_list_members rmask)
         \<and> set (reg_list_members rmask) = {i. bit rmask i}"
proof -
  have ne: "reg_list_members rmask \<noteq> []"
    using assms by (rule reg_list_members_nonempty)
  then obtain n where "n \<in> set (reg_list_members rmask)"
    by (cases "reg_list_members rmask") auto
  then have "n < 16" "bit rmask n" by (simp_all add: reg_list_members_def)
  then have "bit (ucast rmask :: u32) n" by (simp add: bit_ucast_iff)
  then have nz: "(ucast rmask :: u32) \<noteq> 0" by auto
  have "DumpRegList (ucast rmask) =
          ''{'' @ join_with '', '' (map (\<lambda>i. DumpReg (of_nat i)) (reg_list_members rmask))
          @ ''}''"
    using nz ne by (simp add: DumpRegList_def DumpRegList_foldl filter_bit_ucast)
  moreover have "sorted (reg_list_members rmask)" "distinct (reg_list_members rmask)"
    by (simp_all add: reg_list_members_def sorted_wrt_filter)
  ultimately show ?thesis using ne reg_list_members_set by simp
qed

lemma DumpRegList_0x8011: "DumpRegList (ucast (0x8011 :: u16)) = ''{r0, r4, PC}''"
  by code_simp

lemma reg_list_members_0x8011: "reg_list_members 0x8011 = [0, 4, 15]"
  by code_simp

theorem DumpRegList_members_witness:
  "(0x8011 :: u16) \<noteq> 0 \<and> DumpRegList (ucast (0x8011 :: u16)) = ''{r0, r4, PC}''
   \<and> reg_list_members 0x8011 = [0, 4, 15]"
  using DumpRegList_members [of "0x8011"] DumpRegList_0x8011 reg_list_members_0x8011
  by simp

section \<open>Bit-level facts\<close>

text \<open>An equation between 16-bit words is the conjunction of its sixteen bit equations.\<close>

lemma all_less_16:
  "(\<forall>n<16::nat. P n) \<longleftrightarrow>
     P 0 \<and> P 1 \<and> P 2 \<and> P 3 \<and> P 4 \<and> P 5 \<and> P 6 \<and> P 7
     \<and> P 8 \<and> P 9 \<and> P 10 \<and> P 11 \<and> P 12 \<and> P 13 \<and> P 14 \<and> P 15"
  by (simp add: numeral_eq_Suc All_less_Suc conj_ac)

lemma u16_eq_bits:
  "(a :: u16) = b \<longleftrightarrow> (\<forall>n<16. bit a n = bit b n)"
  by (auto simp: bit_eq_iff dest: bit_imp_le_length)

lemma u16_high_bit: "16 \<le> n \<Longrightarrow> \<not> bit (w :: u16) n"
  using bit_imp_le_length [of w n] by auto

lemmas u16_blast = u16_eq_bits all_less_16 bit_simps u16_high_bit

lemma top5_is_32bit:
  "is_32bit instr \<longleftrightarrow> drop_bit 11 instr \<in> {0x1E, 0x1D, 0x1F}"
  unfolding is_32bit_def
  by (simp add: u16_blast) blast

text \<open>Sign extension by a left shift followed by an arithmetic right shift.\<close>

lemma sign_extend_shift:
  fixes w :: u32
  assumes "0 < k" "k < 32"
  shows "sint (signed_drop_bit k (push_bit k w)) = signed_take_bit (31 - k) (uint w)"
proof (rule bit_eqI)
  fix n
  consider "n < 31 - k" | "n = 31 - k" | "31 - k < n" by linarith
  then show "bit (sint (signed_drop_bit k (push_bit k w))) n
           = bit (signed_take_bit (31 - k) (uint w)) n"
    using assms by cases (auto simp: bit_simps min_def)
qed

section \<open>Register operands\<close>

text \<open>
  \<^const>\<open>DumpReg\<close> agrees with the table of names on every index below 16, hence on every
  3-bit and 4-bit field of an encoding.
\<close>

lemma DumpReg_of_nat: "\<forall>n<16. DumpReg (of_nat n) = reg_name n"
  by (simp add: all_less_16 DumpReg_def reg_name_def register_names_def show_eval)

lemma DumpReg_reg_name: "unat r < 16 \<Longrightarrow> DumpReg r = reg_name (unat r)"
  using DumpReg_of_nat [rule_format, of "unat r"] by simp

lemma unat_and_less: "unat m < n \<Longrightarrow> unat ((w :: 'a :: len word) AND m) < n"
  using word_and_le1 [of w m] by (simp add: word_le_nat_alt)

lemma unat_ucast_u16: "unat (ucast (x :: u16) :: u32) = unat x"
  using unsigned_less [of x, where ?'a = nat]
  by (simp add: unsigned_ucast_eq take_bit_nat_eq_self)

lemma DumpReg_field4: "DumpReg (w AND 0xF) = reg_name (unat (w AND 0xF))"
  by (rule DumpReg_reg_name) (simp add: unat_and_less)

lemma DumpReg_field4_u16:
  "DumpReg (ucast ((h :: u16) AND 0xF)) = reg_name (unat (h AND 0xF))"
  using DumpReg_reg_name [of "ucast (h AND 0xF)"] unat_and_less [of "0xF" 16 h]
  by (simp add: unat_ucast_u16)

lemma DumpReg_field3_u16:
  "DumpReg (ucast ((h :: u16) AND 7)) = reg_name (unat (h AND 7))"
  using DumpReg_reg_name [of "ucast (h AND 7)"] unat_and_less [of 7 16 h]
  by (simp add: unat_ucast_u16)

lemma DumpReg_widened_u16:
  "DumpReg (ucast (push_bit 3 ((a :: u16) AND 1) OR (b AND 7))) =
     reg_name (unat (push_bit 3 (a AND 1) OR (b AND 7)))"
proof -
  define x where "x = push_bit 3 (a AND 1) OR (b AND 7)"
  have "x AND 0xF = x"
    by (simp add: x_def u16_blast)
  then have "unat x < 16"
    using unat_and_less [of "0xF" 16 x] by simp
  then show ?thesis
    using DumpReg_reg_name [of "ucast x"] by (simp add: unat_ucast_u16 x_def)
qed

lemmas DumpReg_fields = DumpReg_field4 DumpReg_field4_u16 DumpReg_field3_u16
  DumpReg_widened_u16

text \<open>
  Claim C7. In every operand position of every instruction family, a register is rendered
  by the table of names: index 13 as \<^verbatim>\<open>SP\<close>, 14 as \<^verbatim>\<open>LR\<close>, 15 as \<^verbatim>\<open>PC\<close>, and each index
  0..12 as \<^verbatim>\<open>r\<close> followed by the index in decimal. The table is listed; \<^const>\<open>DumpReg\<close>
  agrees with it on all sixteen indices; a register list renders its members by the
  table; and for every 32-bit encoding \<open>w\<close> and every 16-bit unit \<open>h\<close>, the text of each
  family that writes a register is the family's text with the table entry of the register
  field in every register position. The stack pointer that the 16-bit stack adjustment and
  the 16-bit stack-relative load and store write as a literal is the table entry of index
  13. The remaining families (the fixed-width decoder, the 32-bit branches and
  miscellaneous control, the 16-bit unconditional branch) write no register.
\<close>

theorem register_operands:
  fixes w rl :: u32 and h :: u16
  shows "map reg_name [0, 1, 2, 3, 4, 5, 6, 7, 8, 9, 10, 11, 12, 13, 14, 15] =
       [''r0'', ''r1'', ''r2'', ''r3'', ''r4'', ''r5'', ''r6'', ''r7'', ''r8'', ''r9'',
        ''r10'', ''r11'', ''r12'', ''SP'', ''LR'', ''PC'']
   \<and> map DumpReg [0, 1, 2, 3, 4, 5, 6, 7, 8, 9, 10, 11, 12, 13, 14, 15] =
       map reg_name [0, 1, 2, 3, 4, 5, 6, 7, 8, 9, 10, 11, 12, 13, 14, 15]
   \<and> DumpRegList rl =
       (if rl = 0 then ''<no register list?>''
        else (if filter (bit rl) [0..<16] = [] then []
              else ''{'' @ join_with '', '' (map reg_name (filter (bit rl) [0..<16])))
             @ ''}'')
   \<and> Thumb32_LoadStoreMultiple w =
     (let op = drop_bit 23 w AND 3;
          W = drop_bit 21 w AND 1;
          L = drop_bit 20 w AND 1;
          Rn = drop_bit 16 w AND 0xF;
          reg_list = w AND 0xFFFF
      in if op = 1 \<or> op = 2 then
           (if op = 1 then
              (if L = 0 then
                 ''STM '' @ reg_name (unat Rn) @ (if W = 0 then '', '' else ''!, '')
               else if Rn \<noteq> 13 then
                 ''LDM '' @ reg_name (unat Rn) @ (if W = 0 then '', '' else ''!, '')
               else ''POP '')
            else
              (if L = 0 then
                 (if Rn \<noteq> 13 then
                    ''STMDB '' @ reg_name (unat Rn) @ (if W = 0 then '', '' else ''!, '')
                  else ''PUSH '')
               else ''LDMDB '' @ reg_name (unat Rn) @ (if W = 0 then '', '' else ''!, '')))
           @ DumpRegList reg_list @ ''  // ''
         else [])
   \<and> Thumb32_DataProcessingModifiedImmediate w =
     (let i = drop_bit 26 w AND 1;
          op3 = drop_bit 21 w AND 0xF;
          S = drop_bit 20 w AND 1;
          Rn = drop_bit 16 w AND 0xF;
          imm3 = drop_bit 12 w AND 7;
          Rd = drop_bit 8 w AND 0xF;
          imm8 = w AND 0xFF;
          imm32 = push_bit 12 i OR push_bit 8 imm3 OR imm8
      in (if op3 = 0x0 then ''AND''
          else if op3 = 0x1 then ''BIC''
          else if op3 = 0x2 then ''ORR''
          else if op3 = 0x3 then ''ORN''
          else if op3 = 0x4 then ''EOR''
          else if op3 = 0x8 then ''ADD''
          else if op3 = 0xA then ''ADC''
          else if op3 = 0xB then ''SBC''
          else if op3 = 0xD then ''SUB''
          else if op3 = 0xE then ''RSB''
          else ''UNKNOWN DPMI-'' @ show_nat (unat op3))
         @ (if S = 1 then ''S '' else '' '')
         @ reg_name (unat Rd) @ '', '' @ reg_name (unat Rn)
         @ '', ThumbExpand('' @ show_int (sint imm32) @ '')  // '')
   \<and> Thumb32_DataProcessingPlainBinaryImmediate w =
     (let op3 = drop_bit 20 w AND 0x1F;
          Rn = drop_bit 16 w AND 0xF
      in if op3 = 0x04 then
           (let Rd = drop_bit 8 w AND 0xF;
                i = drop_bit 26 w AND 1;
                imm3 = drop_bit 12 w AND 0x7;
                imm8 = w AND 0xFF;
                imm16 = push_bit 12 Rn OR push_bit 11 i OR push_bit 8 imm3 OR imm8
            in ''MOVW '' @ reg_name (unat Rd) @ '', #'' @ show_nat (unat imm16) @ ''  // '')
         else if op3 = 0x0A then
           (let Rd = drop_bit 8 w AND 0xF;
                i = drop_bit 26 w AND 1;
                imm3 = drop_bit 12 w AND 0x7;
                imm8 = w AND 0xFF;
                imm12 = push_bit 11 i OR push_bit 8 imm3 OR imm8
            in ''SUB.W '' @ reg_name (unat Rd) @ '', '' @ reg_name (unat Rn)
               @ '', #'' @ show_nat (unat imm12) @ ''  // '')
         else [])
   \<and> Thumb32_StoreSingleDataItem w =
     (let op3 = drop_bit 21 w AND 7
      in if op3 = 0x2 \<or> op3 = 0x6 then
           (let Rn = drop_bit 16 w AND 0xF;
                Rt = drop_bit 12 w AND 0xF
            in if op3 = 2 then
                 (let P = drop_bit 10 w AND 1;
                      U = drop_bit 9 w AND 1;
                      W = drop_bit 8 w AND 1;
                      imm8 = w AND 0xFF;
                      imm32 = drop_bit 24 (push_bit 24 imm8)
                  in if Rn = 13 \<and> P = 1 \<and> U = 0 \<and> W = 1 then
                       ''PUSH '' @ reg_name (unat Rt) @ ''  // ''
                     else if Rn = 15 \<or> (P = 0 \<and> W = 0) then
                       ''UNDEFINED ''
                     else
                       (if P = 1 \<and> U = 1 \<and> W = 0 then ''STRT '' else ''STR '')
                       @ reg_name (unat Rt) @ '', ['' @ reg_name (unat Rn)
                       @ (if P = 0 \<and> W = 1 then ''], #'' @ show_int (sint imm32)
                          else '', #'' @ show_int (sint imm32) @ '']''
                               @ (if W = 1 then ''!'' else []))
                       @ ''  // '')
               else if op3 = 6 then
                 (let imm12 = w AND 0xFFF
                  in ''STR.W '' @ reg_name (unat Rt) @ '', ['' @ reg_name (unat Rn)
                     @ '', #'' @ show_nat (unat imm12) @ '']  // '')
               else [])
         else [])
   \<and> Thumb32_LoadWord w =
     (let op3 = drop_bit 23 w AND 3;
          op4 = drop_bit 6 w AND 0x3F;
          Rn = drop_bit 16 w AND 0xF;
          Rt = drop_bit 12 w AND 0xF
      in if op3 = 1 \<or> Rn = 15 then
           (let imm12 = w AND 0xFFF
            in ''LDR.W '' @ reg_name (unat Rt) @ '', ['' @ reg_name (unat Rn)
               @ '', #'' @ show_nat (unat imm12) @ '']  // '')
         else if op4 = 0 then
           (let imm2 = drop_bit 4 w AND 0xF;
                Rm = w AND 0xF
            in ''LDR.W '' @ reg_name (unat Rt) @ '', ['' @ reg_name (unat Rn) @ '', '' @ reg_name (unat Rm)
               @ (if imm2 \<noteq> 0 then '', LSL #'' @ show_nat (unat imm2) else [])
               @ '']  // '')
         else
           (let imm8 = w AND 0xFF
            in ''LDRT '' @ reg_name (unat Rt) @ '', ['' @ reg_name (unat Rn)
               @ '', #'' @ show_nat (unat imm8) @ '']  // ''))
   \<and> Thumb16_ShiftAddSubMoveCompare h =
     (let opcode2 = drop_bit 9 h
      in if opcode2 \<in> {0x0, 0x1, 0x2, 0x3, 0x4, 0x5, 0x6, 0x7, 0x8, 0x9, 0xA, 0xB} then
           (let imm5 = drop_bit 6 h AND 0x1F;
                Rm = drop_bit 3 h AND 7;
                Rd = h AND 7
            in (if opcode2 \<le> 3 then ''LSLS ''
                else if opcode2 \<le> 7 then ''LSRS ''
                else ''ASRS '')
               @ reg_name (unat Rd) @ '', '' @ reg_name (unat Rm)
               @ '', #'' @ show_nat (unat imm5) @ ''  // '')
         else if opcode2 \<in> {0xC, 0xD, 0xE, 0xF} then
           (let imm3_or_Rm = drop_bit 6 h AND 7;
                Rn = drop_bit 3 h AND 7;
                Rd = h AND 7
            in (if opcode2 AND 2 \<noteq> 0 \<and> imm3_or_Rm = 0 then ''MOV ''
                else if opcode2 AND 1 = 0 then ''ADDS ''
                else ''SUBS '')
               @ reg_name (unat Rd) @ '', '' @ reg_name (unat Rn)
               @ (if opcode2 AND 2 = 0 then '', '' @ reg_name (unat imm3_or_Rm)
                  else if imm3_or_Rm \<noteq> 0 then '', #'' @ show_nat (unat imm3_or_Rm)
                  else [])
               @ ''  // '')
         else if opcode2 \<in> {0x10, 0x11, 0x12, 0x13, 0x14, 0x15, 0x16, 0x17,
                              0x18, 0x19, 0x1A, 0x1B, 0x1C, 0x1D, 0x1E, 0x1F} then
           (let Rn = drop_bit 8 h AND 7;
                imm8 = h AND 0xFF;
                sel = drop_bit 2 opcode2
            in (if sel = 4 then ''MOVS ''
                else if sel = 5 then ''CMP ''
                else if sel = 6 then ''ADDS ''
                else if sel = 7 then ''SUBS ''
                else [])
               @ reg_name (unat Rn) @ '', #'' @ show_nat (unat imm8) @ ''  // '')
         else [])
   \<and> Thumb16_SpecialDataBranchExchange h =
     (let opcode2 = drop_bit 6 h AND 0x0F
      in if opcode2 \<in> {0x0, 0x1, 0x2, 0x3} then
           (let DN = drop_bit 7 h AND 1;
                Rm = drop_bit 3 h AND 0xF;
                Rdn = h AND 7;
                DN_Rdn = push_bit 3 DN OR Rdn
            in ''ADD '' @ reg_name (unat DN_Rdn) @ '', '' @ reg_name (unat Rm) @ ''  // '')
         else if opcode2 \<in> {0x8, 0x9, 0xA, 0xB} then
           (let DN = drop_bit 7 h AND 1;
                Rm = drop_bit 3 h AND 0xF;
                Rdn = h AND 7;
                DN_Rdn = push_bit 3 DN OR Rdn
            in ''MOV '' @ reg_name (unat DN_Rdn) @ '', '' @ reg_name (unat Rm) @ ''  // '')
         else if opcode2 \<in> {0x5, 0x6, 0x7} then
           (let N = drop_bit 7 h AND 1;
                Rm = drop_bit 3 h AND 0xF;
                Rn = h AND 7;
                N_Rn = push_bit 3 N OR Rn
            in ''CMP '' @ reg_name (unat N_Rn) @ '', '' @ reg_name (unat Rm) @ ''  // '')
         else if opcode2 \<in> {0xC, 0xD, 0xE, 0xF} then
           (let Rm = drop_bit 3 h AND 0xF
            in (if opcode2 AND 0x2 = 0 then ''BX '' else ''BLX '')
               @ reg_name (unat Rm) @ ''  // '')
         else [])
   \<and> Thumb16_Miscellaneous h =
     (let opcode2 = drop_bit 5 h AND 0x7F
      in if opcode2 \<in> {0x00, 0x01, 0x02, 0x03, 0x04, 0x05, 0x06, 0x07} then
           (let imm7 = uint (h AND 0x7F)
            in (if opcode2 AND 4 = 0 then ''ADD '' else ''SUB '')
               @ reg_name 13 @ '', '' @ reg_name 13 @ '', #''
               @ show_int (push_bit 2 imm7) @ ''  // '')
         else if opcode2 \<in> {0x78, 0x79, 0x7A, 0x7B, 0x7C, 0x7D, 0x7E, 0x7F} then
           (let opA = drop_bit 4 h AND 0xF;
                opB = h AND 0xF
            in if opB = 0 then
                 (if opA = 0 then ''NOP  // ''
                  else if opA = 1 then ''YIELD  // ''
                  else if opA = 2 then ''WFE  // ''
                  else if opA = 3 then ''SEV  // ''
                  else [])
               else ''IT '' @ show_void_ptr (uint opB) @ '' '' @ DumpCond (ucast opA)
                    @ ''  // '')
         else [])
   \<and> Thumb16_LoadStoreSingle h =
     (let opA = drop_bit 12 h
      in if opA = 0x6 then
           (let imm5 = drop_bit 6 h AND 0x1F;
                Rn = drop_bit 3 h AND 7;
                Rt = h AND 7
            in (if h AND 0x800 = 0 then ''STR '' else ''LDR '')
               @ reg_name (unat Rt) @ '', ['' @ reg_name (unat Rn)
               @ '', #'' @ show_int (push_bit 2 (uint imm5)) @ '']  // '')
         else if opA = 0x9 then
           (let imm8 = h AND 0xFF;
                Rt = drop_bit 8 h AND 7
            in (if h AND 0x800 = 0 then ''STR '' else ''LDR '')
               @ reg_name (unat Rt)
               @ '', ['' @ reg_name 13 @ '', #'' @ show_int (push_bit 2 (uint imm8))
               @ '']  // '')
         else [])"
proof (intro conjI)
  show "map reg_name [0, 1, 2, 3, 4, 5, 6, 7, 8, 9, 10, 11, 12, 13, 14, 15] =
       [''r0'', ''r1'', ''r2'', ''r3'', ''r4'', ''r5'', ''r6'', ''r7'', ''r8'', ''r9'',
        ''r10'', ''r11'', ''r12'', ''SP'', ''LR'', ''PC'']"
    by (simp add: reg_name_def register_names_def)
  show "map DumpReg [0, 1, 2, 3, 4, 5, 6, 7, 8, 9, 10, 11, 12, 13, 14, 15] =
       map reg_name [0, 1, 2, 3, 4, 5, 6, 7, 8, 9, 10, 11, 12, 13, 14, 15]"
    by (simp add: DumpReg_def reg_name_def register_names_def show_eval)
  have m: "map (\<lambda>i. DumpReg (of_nat i)) (filter (bit rl) [0..<16]) =
          map reg_name (filter (bit rl) [0..<16])"
    by (rule map_cong) (simp_all add: DumpReg_of_nat)
  show "DumpRegList rl =
       (if rl = 0 then ''<no register list?>''
        else (if filter (bit rl) [0..<16] = [] then []
              else ''{'' @ join_with '', '' (map reg_name (filter (bit rl) [0..<16])))
             @ ''}'')"
    by (simp add: DumpRegList_def DumpRegList_foldl m)
qed (simp_all only: Thumb32_LoadStoreMultiple_def Thumb32_DataProcessingModifiedImmediate_def
      Thumb32_DataProcessingPlainBinaryImmediate_def Thumb32_StoreSingleDataItem_def
      Thumb32_LoadWord_def Thumb16_ShiftAddSubMoveCompare_def
      Thumb16_SpecialDataBranchExchange_def Thumb16_Miscellaneous_def
      Thumb16_LoadStoreSingle_def Let_def DumpReg_fields,
    simp_all add: reg_name_def register_names_def)

text \<open>
  Decoded lines with aliased registers in operand positions: a 32-bit store relative to
  the stack pointer, a 16-bit register move, and a register list.
\<close>

theorem register_operands_witness:
  "os (fst (DumpThumb32 (bytes_at 0x1000 [0xCD, 0xF8, 0x04, 0x00]) 0x1000)) =
     tabs3 @ ''0x1000: STR.W r0, [SP, #4]  // f8cd0004'' @ newline
   \<and> os (fst (DumpThumb16 (bytes_at 0x1000 [0xF7, 0x46]) 0x1000)) =
     tabs3 @ ''0x1000: MOV PC, LR  // 46f7'' @ newline
   \<and> DumpRegList 0xE001 = ''{r0, SP, LR, PC}''"
proof -
  note R = register_operands [where w = "0xF8CD0004" and h = "0x46F7" and rl = "0xE001"]
  have a: "Thumb32_StoreSingleDataItem 0xF8CD0004 = ''STR.W r0, [SP, #4]  // ''"
    using R by (simp add: reg_name_def register_names_def show_eval)
  have b: "Thumb16_SpecialDataBranchExchange 0x46F7 = ''MOV PC, LR  // ''"
    using R by (simp add: reg_name_def register_names_def show_eval)
  have f: "filter (bit (0xE001 :: u32)) [0..<16] = [0, 13, 14, 15]"
    by code_simp
  have c: "DumpRegList 0xE001 = ''{r0, SP, LR, PC}''"
    using R by (simp add: f reg_name_def register_names_def)
  show ?thesis
    by (simp add: DumpThumb16_local DumpThumb32_op1 read_eval is_32bit_def Thumb16_decode_def
        Thumb32_switch_def a b c show_eval)
qed

section \<open>Compressed mode: bytes consumed\<close>

text \<open>
  Claim C3. A 16-bit unit whose top 5 bits are 11110, 11101 or 11111 is handed to the long
  decoder, which reports 4 bytes consumed; every other 16-bit unit is decoded locally and
  2 bytes are reported.
\<close>

theorem DumpThumb16_consumed_bytes:
  "(drop_bit 11 (Thumb16_instr mem p) \<in> {0x1E, 0x1D, 0x1F} \<longrightarrow>
      DumpThumb16 mem p =
        (\<lparr>os = os (fst (DumpThumb32 mem p)),
          touched = snd (ReadU16 mem p) @ touched (fst (DumpThumb32 mem p))\<rparr>, 4)
      \<and> snd (DumpThumb32 mem p) = 4)
   \<and> (drop_bit 11 (Thumb16_instr mem p) \<notin> {0x1E, 0x1D, 0x1F} \<longrightarrow>
      DumpThumb16 mem p =
        (\<lparr>os = tabs3 @ show_ptr p @ '': '' @ Thumb16_decode p (Thumb16_instr mem p)
                 @ pad0 4 (show_hex (unat (Thumb16_instr mem p))) @ newline,
          touched = snd (ReadU16 mem p)\<rparr>, 2))"
proof (cases "is_32bit (Thumb16_instr mem p)")
  case True
  then have "snd (DumpThumb32 mem p) = 4"
    by (simp add: DumpThumb32_op1 is_32bit_op1)
  moreover have "drop_bit 11 (Thumb16_instr mem p) \<in> {0x1E, 0x1D, 0x1F}"
    using True top5_is_32bit by blast
  ultimately show ?thesis
    using True by (simp add: DumpThumb16_long)
next
  case False
  moreover have "drop_bit 11 (Thumb16_instr mem p) \<notin> {0x1E, 0x1D, 0x1F}"
    using False top5_is_32bit by blast
  ultimately show ?thesis
    by (simp add: DumpThumb16_local)
qed

theorem DumpThumb16_consumed_bytes_witness:
  "drop_bit 11 (Thumb16_instr blx_unit 0x1000)
     \<in> {0x1E, 0x1D, 0x1F}
   \<and> snd (DumpThumb16 blx_unit 0x1000) = 4
   \<and> drop_bit 11 (Thumb16_instr (bytes_at 0x1000 [0x00, 0x20]) 0x1000) \<notin> {0x1E, 0x1D, 0x1F}
   \<and> snd (DumpThumb16 (bytes_at 0x1000 [0x00, 0x20]) 0x1000) = 2"
proof -
  have a: "Thumb16_instr blx_unit 0x1000 = 0xF000"
    by (simp add: read_eval)
  have b: "Thumb16_instr (bytes_at 0x1000 [0x00, 0x20]) 0x1000 = 0x2000"
    by (simp add: read_eval)
  show ?thesis
    using DumpThumb16_consumed_bytes [of blx_unit "0x1000"]
      DumpThumb16_consumed_bytes [of "bytes_at 0x1000 [0x00, 0x20]" "0x1000"]
    by (simp add: a b)
qed

section \<open>The 16-bit unconditional branch\<close>

lemma and_7FFF: "(instr :: u16) AND 0x7FFF = take_bit 15 instr"
  by (simp add: take_bit_eq_mask mask_eq_exp_minus_1)

text \<open>
  The mask of \<^verbatim>\<open>imm11\<close> in the source is \<^verbatim>\<open>0x7FFF\<close>; the bits above the eleventh are
  shifted out by the sign extension.
\<close>

lemma Thumb16_Branch_offset:
  "sint (signed_drop_bit 20 (push_bit 20 (push_bit 1 (ucast ((instr :: u16) AND 0x7FFF) :: u32))))
   = signed_take_bit 11 (push_bit 1 (take_bit 11 (uint instr)))"
proof -
  define s :: nat where "s = 1"
  have se: "sint (signed_drop_bit 20 (push_bit 20 x)) = signed_take_bit 11 (uint x)"
    for x :: u32
    using sign_extend_shift [of 20 x] by simp
  have "sint (signed_drop_bit 20 (push_bit 20 (push_bit s (ucast (take_bit 15 instr) :: u32))))
      = signed_take_bit 11 (uint (push_bit s (ucast (take_bit 15 instr) :: u32)))"
    by (rule se)
  also have "\<dots> = signed_take_bit 11 (push_bit s (take_bit 11 (uint instr)))"
  proof (rule bit_eqI)
    fix n :: nat
    define m where "m = min 11 n"
    have m: "m \<le> 11" by (simp add: m_def)
    have s: "0 < s" by (simp add: s_def)
    have "bit (uint (push_bit s (ucast (take_bit 15 instr) :: u32))) m
        = (s \<le> m \<and> bit instr (m - s))"
      using m by (simp add: bit_simps) (use bit_imp_le_length in fastforce)
    moreover have "bit (push_bit s (take_bit 11 (uint instr))) m
        = (s \<le> m \<and> bit instr (m - s))"
      using m s by (simp add: bit_simps) linarith
    ultimately show
      "bit (signed_take_bit 11 (uint (push_bit s (ucast (take_bit 15 instr) :: u32)))) n
        = bit (signed_take_bit 11 (push_bit s (take_bit 11 (uint instr)))) n"
      by (simp add: bit_signed_take_bit_iff m_def)
  qed
  finally show ?thesis unfolding and_7FFF s_def .
qed

lemma branch_not_32bit:
  "drop_bit 10 instr \<in> {0x38, 0x39} \<Longrightarrow> \<not> is_32bit instr"
  unfolding is_32bit_def
  by (simp add: u16_blast) blast

lemma branch_decode:
  assumes "drop_bit 10 instr \<in> {0x38, 0x39}"
  shows "Thumb16_decode p instr = Thumb16_Branch p instr"
proof -
  have "\<not> drop_bit 10 instr < 0x10" "drop_bit 10 instr \<noteq> 0x11"
    using assms by auto
  moreover have "instr AND 0xF000 \<noteq> 0xB000" "instr AND 0xF000 \<noteq> 0x5000"
    "instr AND 0xE000 \<noteq> 0x6000" "instr AND 0xE000 \<noteq> 0x8000"
    using assms by (simp_all add: u16_blast) blast+
  ultimately show ?thesis using assms
    by (simp add: Thumb16_decode_def Let_def)
qed

text \<open>
  Claim C5. For every 16-bit unit whose top 6 bits are 111000 or 111001 the decoder writes
  an unconditional branch: the offset written is the low 11 bits shifted left by one and
  sign-extended from 12 bits, and the target written is the pointer at the instruction's
  address plus 4 plus that offset.
\<close>

theorem Thumb16_unconditional_branch:
  assumes "drop_bit 10 (Thumb16_instr mem p) \<in> {0x38, 0x39}"
  shows "DumpThumb16 mem p =
           (\<lparr>os = tabs3 @ show_ptr p @ '': '' @ ''B ''
                    @ show_int (branch16_offset (Thumb16_instr mem p))
                    @ '' ('' @ show_void_ptr (p + 4 + branch16_offset (Thumb16_instr mem p))
                    @ '')''
                    @ ''  // '' @ pad0 4 (show_hex (unat (Thumb16_instr mem p))) @ newline,
             touched = [p, p + 1]\<rparr>, 2)"
proof -
  have "Thumb16_Branch p (Thumb16_instr mem p) =
          ''B '' @ show_int (branch16_offset (Thumb16_instr mem p))
          @ '' ('' @ show_void_ptr (p + 4 + branch16_offset (Thumb16_instr mem p)) @ '')''
          @ ''  // ''"
    unfolding Thumb16_Branch_def Let_def DumpBranchTarget_def Thumb16_Branch_offset
      branch16_offset_def by simp
  then show ?thesis
    using assms
    by (simp add: DumpThumb16_local branch_not_32bit branch_decode ReadU16_def)
qed

theorem Thumb16_unconditional_branch_witness:
  "drop_bit 10 (Thumb16_instr (bytes_at 0x8000000 [0xFE, 0xE7]) 0x8000000) \<in> {0x38, 0x39}
   \<and> DumpThumb16 (bytes_at 0x8000000 [0xFE, 0xE7]) 0x8000000 =
       (\<lparr>os = tabs3 @ ''0x8000000: B -4 (0x8000000)  // e7fe'' @ newline,
         touched = [0x8000000, 0x8000001]\<rparr>, 2)
   \<and> drop_bit 10 (Thumb16_instr (bytes_at 0x400 [0x00, 0xE4]) 0x400) \<in> {0x38, 0x39}
   \<and> DumpThumb16 (bytes_at 0x400 [0x00, 0xE4]) 0x400 =
       (\<lparr>os = tabs3 @ ''0x400: B -2048 (0xfffffffffffffc04)  // e400'' @ newline,
         touched = [0x400, 0x401]\<rparr>, 2)"
proof -
  have a: "Thumb16_instr (bytes_at 0x8000000 [0xFE, 0xE7]) 0x8000000 = 0xE7FE"
    "Thumb16_instr (bytes_at 0x400 [0x00, 0xE4]) 0x400 = 0xE400"
    by (simp_all add: read_eval)
  have b: "branch16_offset 0xE7FE = - 4" "branch16_offset 0xE400 = - 2048"
    by (simp_all add: branch16_offset_def)
  show ?thesis
    using Thumb16_unconditional_branch [of "bytes_at 0x8000000 [0xFE, 0xE7]" "0x8000000"]
      Thumb16_unconditional_branch [of "bytes_at 0x400 [0x00, 0xE4]" "0x400"]
    by (simp add: a b show_eval)
qed

section \<open>Load/store multiple: PUSH and POP\<close>

text \<open>No number, register name or register list contains an exclamation mark.\<close>

lemma digit_char_hex: "d < 16 \<Longrightarrow> digit_char d \<in> set ''0123456789abcdef''"
  unfolding digit_char_def by (rule nth_mem) simp

lemma show_base_chars:
  "2 \<le> b \<Longrightarrow> b \<le> 16 \<Longrightarrow> set (show_base b n) \<subseteq> set ''0123456789abcdef''"
proof (induction b n rule: show_base.induct)
  case (1 b n)
  show ?case
  proof (cases "n < b")
    case True
    then have "n < 16" using "1.prems" by simp
    then show ?thesis using True digit_char_hex [of n] by (simp add: show_base_digit)
  next
    case False
    then have "n mod b < 16" using "1.prems"
      by (meson less_le_trans mod_less_divisor not_less zero_less_numeral le_trans less_imp_le)
    then have "digit_char (n mod b) \<in> set ''0123456789abcdef''" by (rule digit_char_hex)
    moreover have "set (show_base b (n div b)) \<subseteq> set ''0123456789abcdef''"
      using "1.IH" "1.prems" False by simp
    ultimately show ?thesis using False "1.prems" by (simp add: show_base_step)
  qed
qed

lemma show_nat_no_bang: "CHR ''!'' \<notin> set (show_nat n)"
  using show_base_chars [of 10 n] by (auto simp: show_nat_def)

lemma show_hex_no_bang: "CHR ''!'' \<notin> set (show_hex n)"
  using show_base_chars [of 16 n] by (auto simp: show_hex_def)

lemma show_ptr_no_bang: "CHR ''!'' \<notin> set (show_ptr p)"
  using show_hex_no_bang by (simp add: show_ptr_def)

lemma pad0_no_bang: "CHR ''!'' \<notin> set s \<Longrightarrow> CHR ''!'' \<notin> set (pad0 w s)"
  by (auto simp: pad0_def)

lemma DumpReg_no_bang: "CHR ''!'' \<notin> set (DumpReg r)"
  using show_nat_no_bang by (simp add: DumpReg_def)

lemma join_with_no_bang:
  "CHR ''!'' \<notin> set sep \<Longrightarrow> \<forall>x\<in>set xs. CHR ''!'' \<notin> set x \<Longrightarrow>
   CHR ''!'' \<notin> set (join_with sep xs)"
  by (induction sep xs rule: join_with.induct) auto

lemma DumpRegList_no_bang: "CHR ''!'' \<notin> set (DumpRegList rl)"
proof -
  have "CHR ''!'' \<notin> set (join_with '', '' (map (\<lambda>i. DumpReg (of_nat i)) xs))" for xs :: "nat list"
    by (rule join_with_no_bang) (simp_all add: DumpReg_no_bang)
  then show ?thesis
    by (simp add: DumpRegList_def DumpRegList_foldl)
qed


text \<open>
  Claim C9. In the 32-bit load/store-multiple family every load form (sub-opcode 1, load
  flag set) with base register 13 renders as POP, and every decrement-before store form
  (sub-opcode 2, load flag clear) with base register 13 renders as PUSH. The write-back
  flag (bit 21) is unconstrained, the mnemonic is followed directly by the register list,
  and the line contains no exclamation mark.
\<close>

theorem Thumb32_push_pop:
  fixes mem p
  defines "instr \<equiv> Thumb32_instr mem p"
  assumes op1: "drop_bit 27 instr AND 3 = 1"
    and family: "drop_bit 20 instr AND 0x7F \<in>
                  {0x00, 0x01, 0x02, 0x03, 0x08, 0x09, 0x0A, 0x0B,
                   0x10, 0x11, 0x12, 0x13, 0x18, 0x19, 0x1A, 0x1B}"
    and Rn: "drop_bit 16 instr AND 0xF = 13"
  shows "(drop_bit 23 instr AND 3 = 1 \<and> drop_bit 20 instr AND 1 = 1 \<longrightarrow>
            os (fst (DumpThumb32 mem p)) =
              tabs3 @ show_ptr p @ '': '' @ ''POP '' @ DumpRegList (instr AND 0xFFFF)
              @ ''  // '' @ pad0 8 (show_hex (unat instr)) @ newline
            \<and> CHR ''!'' \<notin> set (os (fst (DumpThumb32 mem p))))
       \<and> (drop_bit 23 instr AND 3 = 2 \<and> drop_bit 20 instr AND 1 = 0 \<longrightarrow>
            os (fst (DumpThumb32 mem p)) =
              tabs3 @ show_ptr p @ '': '' @ ''PUSH '' @ DumpRegList (instr AND 0xFFFF)
              @ ''  // '' @ pad0 8 (show_hex (unat instr)) @ newline
            \<and> CHR ''!'' \<notin> set (os (fst (DumpThumb32 mem p))))"
proof -
  have nz: "drop_bit 27 (Thumb32_instr mem p) AND 3 \<noteq> 0"
    using op1 by (simp add: instr_def)
  have sw: "Thumb32_switch p instr 1 (drop_bit 20 instr AND 0x7F) = Thumb32_LoadStoreMultiple instr"
    using family by (simp add: Thumb32_switch_def)
  have os: "os (fst (DumpThumb32 mem p)) =
              tabs3 @ show_ptr p @ '': '' @ Thumb32_LoadStoreMultiple instr
              @ pad0 8 (show_hex (unat instr)) @ newline"
    using op1 sw by (simp add: DumpThumb32_op1 [OF nz] instr_def)
  have nb: "CHR ''!'' \<notin> set (tabs3 @ show_ptr p @ '': '' @ m @ DumpRegList (instr AND 0xFFFF)
              @ ''  // '' @ pad0 8 (show_hex (unat instr)) @ newline)"
    if "CHR ''!'' \<notin> set m" for m
    using that show_ptr_no_bang DumpRegList_no_bang pad0_no_bang [OF show_hex_no_bang]
    by (simp add: tabs3_def newline_def)
  have pop: "Thumb32_LoadStoreMultiple instr = ''POP '' @ DumpRegList (instr AND 0xFFFF) @ ''  // ''"
    if "drop_bit 23 instr AND 3 = 1" "drop_bit 20 instr AND 1 = 1"
    using that Rn by (simp add: Thumb32_LoadStoreMultiple_def)
  have push: "Thumb32_LoadStoreMultiple instr = ''PUSH '' @ DumpRegList (instr AND 0xFFFF) @ ''  // ''"
    if "drop_bit 23 instr AND 3 = 2" "drop_bit 20 instr AND 1 = 0"
    using that Rn by (simp add: Thumb32_LoadStoreMultiple_def)
  show ?thesis
    using nb [of "''POP ''"] nb [of "''PUSH ''"] by (auto simp: os pop push)
qed

lemma DumpRegList_0x81F0: "DumpRegList 0x81F0 = ''{r4, r5, r6, r7, r8, PC}''"
  by code_simp

lemma DumpRegList_0x41F0: "DumpRegList 0x41F0 = ''{r4, r5, r6, r7, r8, LR}''"
  by code_simp

theorem Thumb32_push_pop_witness:
  "os (fst (DumpThumb32 (bytes_at 0x1000 [0xBD, 0xE8, 0xF0, 0x81]) 0x1000)) =
     tabs3 @ ''0x1000: POP {r4, r5, r6, r7, r8, PC}  // e8bd81f0'' @ newline
   \<and> os (fst (DumpThumb32 (bytes_at 0x1000 [0x9D, 0xE8, 0xF0, 0x81]) 0x1000)) =
     tabs3 @ ''0x1000: POP {r4, r5, r6, r7, r8, PC}  // e89d81f0'' @ newline
   \<and> os (fst (DumpThumb32 (bytes_at 0x1000 [0x2D, 0xE9, 0xF0, 0x41]) 0x1000)) =
     tabs3 @ ''0x1000: PUSH {r4, r5, r6, r7, r8, LR}  // e92d41f0'' @ newline
   \<and> os (fst (DumpThumb32 (bytes_at 0x1000 [0x0D, 0xE9, 0xF0, 0x41]) 0x1000)) =
     tabs3 @ ''0x1000: PUSH {r4, r5, r6, r7, r8, LR}  // e90d41f0'' @ newline"
proof -
  have a: "Thumb32_instr (bytes_at 0x1000 [0xBD, 0xE8, 0xF0, 0x81]) 0x1000 = 0xE8BD81F0"
    by (simp add: read_eval)
  have b: "Thumb32_instr (bytes_at 0x1000 [0x9D, 0xE8, 0xF0, 0x81]) 0x1000 = 0xE89D81F0"
    by (simp add: read_eval)
  have c: "Thumb32_instr (bytes_at 0x1000 [0x2D, 0xE9, 0xF0, 0x41]) 0x1000 = 0xE92D41F0"
    by (simp add: read_eval)
  have d: "Thumb32_instr (bytes_at 0x1000 [0x0D, 0xE9, 0xF0, 0x41]) 0x1000 = 0xE90D41F0"
    by (simp add: read_eval)
  show ?thesis
    using Thumb32_push_pop [of "bytes_at 0x1000 [0xBD, 0xE8, 0xF0, 0x81]" "0x1000"]
      Thumb32_push_pop [of "bytes_at 0x1000 [0x9D, 0xE8, 0xF0, 0x81]" "0x1000"]
      Thumb32_push_pop [of "bytes_at 0x1000 [0x2D, 0xE9, 0xF0, 0x41]" "0x1000"]
      Thumb32_push_pop [of "bytes_at 0x1000 [0x0D, 0xE9, 0xF0, 0x41]" "0x1000"]
    by (simp add: a b c d DumpRegList_0x81F0 DumpRegList_0x41F0 show_eval)
qed


section \<open>BL and BLX (immediate)\<close>

text \<open>
  With all offset fields zero the operands of the shifts in the source are constants.
\<close>

lemma BL_zero_fields_imm32:
  "signed_drop_bit 8 (push_bit 8 (push_bit 24 0 OR push_bit 23 (NOT (0 XOR 0))
      OR push_bit 22 (NOT (0 XOR 0)) OR push_bit 12 0 OR push_bit 1 0)) = (0xFFC00000 :: u32)"
  by code_simp

lemma Thumb32_BL_zero_fields:
  assumes op3: "drop_bit 12 instr AND 7 \<in> {4, 5, 6, 7}"
    and S: "drop_bit 26 instr AND 1 = 0"
    and J1: "drop_bit 13 instr AND 1 = 0"
    and J2: "drop_bit 11 instr AND 1 = 0"
    and imm10: "drop_bit 16 instr AND 0x3FF = 0"
    and imm11: "instr AND 0x7FF = 0"
  shows "Thumb32_BranchesAndMiscControl p instr op2 =
           (if drop_bit 12 instr AND 1 = 0 then ''BX '' else ''BLX '')
           @ show_int (- 4194304) @ '' ('' @ show_void_ptr (p + 4 + (- 4194304)) @ '')''"
proof -
  have a: "drop_bit 12 instr AND 7 \<noteq> 0"
    "\<not> (drop_bit 12 instr AND 7 = 2 \<or> drop_bit 12 instr AND 7 = 1
         \<or> drop_bit 12 instr AND 7 = 3)"
    using op3 by auto
  have b: "sint (0xFFC00000 :: u32) = - 4194304" by simp
  show ?thesis
    unfolding Thumb32_BranchesAndMiscControl_def Let_def S J1 J2 imm10 imm11
      BL_zero_fields_imm32 DumpBranchTarget_def b
    using a by simp
qed

lemma wrapped_target_differs:
  "(a + (- 4194304)) mod 2 ^ pointer_bits \<noteq> (a :: int) mod 2 ^ pointer_bits"
proof
  assume "(a + (- 4194304)) mod 2 ^ pointer_bits = a mod 2 ^ pointer_bits"
  then have "(2 :: int) ^ pointer_bits dvd (a + (- 4194304)) - a"
    by (simp only: mod_eq_dvd_iff)
  then have "(18446744073709551616 :: int) dvd 4194304"
    by (simp add: pointer_bits_def)
  then show False by simp
qed

text \<open>
  Claim C1, as amended. For a 32-bit BL/BLX immediate encoding (\<^verbatim>\<open>op1\<close> = 2, bit 15 set,
  sub-field in 4..7) whose offset fields S, J1, J2, imm10 and imm11 are all zero, the
  decoder writes a non-zero offset (the I bits are the inverted exclusive-or of zero bits,
  hence set). The target written is the pointer at the instruction's address plus 4 plus
  the offset written, wrapped at the width of a pointer, and it is not the pointer at the
  instruction's address plus 4.
\<close>

theorem Thumb32_BL_zero_offset_fields:
  fixes mem p
  defines "instr \<equiv> Thumb32_instr mem p"
  assumes op1: "drop_bit 27 instr AND 3 = 2"
    and bit15: "instr AND 0x8000 \<noteq> 0"
    and op3: "drop_bit 12 instr AND 7 \<in> {4, 5, 6, 7}"
    and S: "drop_bit 26 instr AND 1 = 0"
    and J1: "drop_bit 13 instr AND 1 = 0"
    and J2: "drop_bit 11 instr AND 1 = 0"
    and imm10: "drop_bit 16 instr AND 0x3FF = 0"
    and imm11: "instr AND 0x7FF = 0"
  shows "\<exists>imm32. imm32 \<noteq> 0
           \<and> (p + 4 + imm32) mod 2 ^ pointer_bits \<noteq> (p + 4) mod 2 ^ pointer_bits
           \<and> DumpThumb32 mem p =
             (\<lparr>os = tabs3 @ show_ptr p @ '': ''
                      @ (if drop_bit 12 instr AND 1 = 0 then ''BX '' else ''BLX '')
                      @ show_int imm32 @ '' ('' @ show_void_ptr (p + 4 + imm32) @ '')''
                      @ pad0 8 (show_hex (unat instr)) @ newline,
               touched = [p, p + 1, p + 2, p + 3]\<rparr>, 4)"
proof -
  have nz: "drop_bit 27 (Thumb32_instr mem p) AND 3 \<noteq> 0"
    using op1 by (simp add: instr_def)
  have sw: "Thumb32_switch p instr 2 op2 = Thumb32_BranchesAndMiscControl p instr op2" for op2
    using bit15 by (simp add: Thumb32_switch_def)
  have "DumpThumb32 mem p =
          (\<lparr>os = tabs3 @ show_ptr p @ '': ''
                   @ (if drop_bit 12 instr AND 1 = 0 then ''BX '' else ''BLX '')
                   @ show_int (- 4194304) @ '' ('' @ show_void_ptr (p + 4 + (- 4194304))
                   @ '')'' @ pad0 8 (show_hex (unat instr)) @ newline,
            touched = [p, p + 1, p + 2, p + 3]\<rparr>, 4)"
    using op1 sw Thumb32_BL_zero_fields [OF op3 S J1 J2 imm10 imm11]
    by (simp add: DumpThumb32_op1 [OF nz] instr_def [symmetric] ReadU16_def)
  then show ?thesis
    using wrapped_target_differs [of "p + 4"]
    by (intro exI [of _ "- 4194304"]) simp
qed

lemma Thumb32_instr_BLX:
  "Thumb32_instr (bytes_at 0x8000000 [0x00, 0xF0, 0x00, 0xD0]) 0x8000000 = 0xF000D000"
  by (simp add: read_eval)

lemma Thumb32_instr_blx_unit: "Thumb32_instr blx_unit 0x1000 = 0xF000D000"
  by (simp add: read_eval)

lemma BLX_line_high:
  "os (fst (DumpThumb32 (bytes_at 0x8000000 [0x00, 0xF0, 0x00, 0xD0]) 0x8000000)) =
     tabs3 @ ''0x8000000: BLX -4194304 (0x7c00004)f000d000'' @ newline"
proof -
  have "Thumb32_BranchesAndMiscControl 0x8000000 0xF000D000 0 = ''BLX -4194304 (0x7c00004)''"
    by (subst Thumb32_BL_zero_fields) (simp_all add: show_eval)
  then have "Thumb32_switch 0x8000000 0xF000D000 2 0 = ''BLX -4194304 (0x7c00004)''"
    by (simp add: Thumb32_switch_def)
  then show ?thesis
    by (simp add: DumpThumb32_op1 Thumb32_instr_BLX show_eval)
qed

text \<open>At a low address the target leaves the address space and wraps.\<close>

lemma BLX_line_low:
  "os (fst (DumpThumb32 blx_unit 0x1000)) =
     tabs3 @ ''0x1000: BLX -4194304 (0xffffffffffc01004)f000d000'' @ newline"
proof -
  have "Thumb32_BranchesAndMiscControl 0x1000 0xF000D000 0 =
          ''BLX -4194304 (0xffffffffffc01004)''"
    by (subst Thumb32_BL_zero_fields) (simp_all add: show_eval)
  then have "Thumb32_switch 0x1000 0xF000D000 2 0 = ''BLX -4194304 (0xffffffffffc01004)''"
    by (simp add: Thumb32_switch_def)
  then show ?thesis
    by (simp add: DumpThumb32_op1 Thumb32_instr_blx_unit show_eval)
qed

theorem Thumb32_BL_zero_offset_fields_witness:
  "(\<exists>imm32. imm32 \<noteq> 0
      \<and> (0x8000000 + 4 + imm32) mod 2 ^ pointer_bits \<noteq> (0x8000000 + 4) mod 2 ^ pointer_bits
      \<and> DumpThumb32 (bytes_at 0x8000000 [0x00, 0xF0, 0x00, 0xD0]) 0x8000000 =
         (\<lparr>os = tabs3 @ ''0x8000000: BLX '' @ show_int imm32
                  @ '' ('' @ show_void_ptr (0x8000000 + 4 + imm32) @ '')'' @ ''f000d000''
                  @ newline,
           touched = [0x8000000, 0x8000001, 0x8000002, 0x8000003]\<rparr>, 4))
   \<and> os (fst (DumpThumb32 (bytes_at 0x8000000 [0x00, 0xF0, 0x00, 0xD0]) 0x8000000)) =
       tabs3 @ ''0x8000000: BLX -4194304 (0x7c00004)f000d000'' @ newline
   \<and> os (fst (DumpThumb32 blx_unit 0x1000)) =
       tabs3 @ ''0x1000: BLX -4194304 (0xffffffffffc01004)f000d000'' @ newline"
proof -
  have "\<exists>imm32. imm32 \<noteq> 0
      \<and> (0x8000000 + 4 + imm32) mod 2 ^ pointer_bits \<noteq> (0x8000000 + 4) mod 2 ^ pointer_bits
      \<and> DumpThumb32 (bytes_at 0x8000000 [0x00, 0xF0, 0x00, 0xD0]) 0x8000000 =
         (\<lparr>os = tabs3 @ ''0x8000000: BLX '' @ show_int imm32
                  @ '' ('' @ show_void_ptr (0x8000000 + 4 + imm32) @ '')'' @ ''f000d000''
                  @ newline,
           touched = [0x8000000, 0x8000001, 0x8000002, 0x8000003]\<rparr>, 4)"
    using Thumb32_BL_zero_offset_fields
            [of "bytes_at 0x8000000 [0x00, 0xF0, 0x00, 0xD0]" "0x8000000"]
    by (simp add: Thumb32_instr_BLX show_hex_def show_base_digit show_base_step digit_char_def
          pad0_def show_ptr_def)
  then show ?thesis
    using BLX_line_high BLX_line_low by blast
qed

text \<open>
  Claim C1 as stated fails: at the encoding 0xF000D000, whose offset fields are all zero,
  the target written is not the instruction's address plus 4, neither at the address
  0x8000000 nor at the address 0x1000.
\<close>

theorem Thumb32_BL_zero_offset_counterexample:
  "drop_bit 27 (0xF000D000 :: u32) AND 3 = 2
   \<and> (0xF000D000 :: u32) AND 0x8000 \<noteq> 0
   \<and> drop_bit 12 (0xF000D000 :: u32) AND 7 = 5
   \<and> drop_bit 26 (0xF000D000 :: u32) AND 1 = 0
   \<and> drop_bit 13 (0xF000D000 :: u32) AND 1 = 0
   \<and> drop_bit 11 (0xF000D000 :: u32) AND 1 = 0
   \<and> drop_bit 16 (0xF000D000 :: u32) AND 0x3FF = 0
   \<and> (0xF000D000 :: u32) AND 0x7FF = 0
   \<and> Thumb32_instr (bytes_at 0x8000000 [0x00, 0xF0, 0x00, 0xD0]) 0x8000000 = 0xF000D000
   \<and> os (fst (DumpThumb32 (bytes_at 0x8000000 [0x00, 0xF0, 0x00, 0xD0]) 0x8000000)) =
       tabs3 @ ''0x8000000: BLX -4194304 (0x7c00004)f000d000'' @ newline
   \<and> os (fst (DumpThumb32 (bytes_at 0x8000000 [0x00, 0xF0, 0x00, 0xD0]) 0x8000000)) \<noteq>
       tabs3 @ ''0x8000000: BLX 0 (0x8000004)f000d000'' @ newline
   \<and> show_void_ptr (0x8000000 + 4) = ''0x8000004''
   \<and> Thumb32_instr blx_unit 0x1000 = 0xF000D000
   \<and> os (fst (DumpThumb32 blx_unit 0x1000)) =
       tabs3 @ ''0x1000: BLX -4194304 (0xffffffffffc01004)f000d000'' @ newline
   \<and> show_void_ptr (0x1000 + 4) = ''0x1004''"
  by (simp add: BLX_line_high BLX_line_low Thumb32_instr_BLX Thumb32_instr_blx_unit show_eval)

section \<open>Mode dispatcher: the fixed-width walk\<close>

lemma effect_append_no_effect [simp]:
  "effect_append no_effect a = a" "effect_append a no_effect = a"
  by (simp_all add: effect_append_def no_effect_def)

lemma effect_append_assoc:
  "effect_append (effect_append a b) c = effect_append a (effect_append b c)"
  by (simp add: effect_append_def)

lemma touched_effect_append [simp]:
  "touched (effect_append a b) = touched a @ touched b"
  by (simp add: effect_append_def)

lemma touched_no_effect [simp]: "touched no_effect = []"
  by (simp add: no_effect_def)

lemma DumpArm_loop_step:
  "cur < end_p \<Longrightarrow>
   DumpArm_loop mem cur end_p =
     effect_append (DumpArm mem cur) (DumpArm_loop mem (cur + 4) end_p)"
  by (subst DumpArm_loop.simps) simp

lemma DumpArm_loop_done: "\<not> cur < end_p \<Longrightarrow> DumpArm_loop mem cur end_p = no_effect"
  by (subst DumpArm_loop.simps) simp

lemma DumpArm_loop_odd_end:
  "even cur \<Longrightarrow> odd end_p \<Longrightarrow>
   DumpArm_loop mem cur end_p = DumpArm_loop mem cur (end_p + 1)"
proof (induction mem cur end_p rule: DumpArm_loop.induct)
  case (1 mem cur end_p)
  show ?case
  proof (cases "cur < end_p")
    case True
    then have "DumpArm_loop mem (cur + 4) end_p = DumpArm_loop mem (cur + 4) (end_p + 1)"
      using "1.IH" "1.prems" by simp
    then show ?thesis using True by (simp add: DumpArm_loop_step)
  next
    case False
    moreover have "cur \<noteq> end_p" using "1.prems" by auto
    ultimately show ?thesis by (simp add: DumpArm_loop_done)
  qed
qed

lemma DumpArm_loop_end_minus_1:
  "(end_p - 1 - cur) mod 4 \<noteq> 0 \<or> end_p \<le> cur \<Longrightarrow>
   DumpArm_loop mem cur end_p = DumpArm_loop mem cur (end_p - 1)"
proof (induction mem cur end_p rule: DumpArm_loop.induct)
  case (1 mem cur end_p)
  show ?case
  proof (cases "cur < end_p")
    case True
    then have ne: "(end_p - 1 - cur) mod 4 \<noteq> 0" using "1.prems" by auto
    then have "cur \<noteq> end_p - 1" by auto
    then have lt: "cur < end_p - 1" using True by simp
    have "(end_p - 1 - (cur + 4)) mod 4 \<noteq> 0" using ne by presburger
    then have "DumpArm_loop mem (cur + 4) end_p = DumpArm_loop mem (cur + 4) (end_p - 1)"
      using "1.IH" True by simp
    then show ?thesis using True lt by (simp add: DumpArm_loop_step)
  next
    case False
    then show ?thesis by (simp add: DumpArm_loop_done)
  qed
qed

lemma DumpArm_loop_one_more:
  "(end_p - 1 - cur) mod 4 = 0 \<Longrightarrow> cur < end_p \<Longrightarrow>
   DumpArm_loop mem cur end_p =
     effect_append (DumpArm_loop mem cur (end_p - 1)) (DumpArm mem (end_p - 1))"
proof (induction mem cur end_p rule: DumpArm_loop.induct)
  case (1 mem cur end_p)
  show ?case
  proof (cases "cur = end_p - 1")
    case True
    have "DumpArm_loop mem (end_p - 1) end_p =
            effect_append (DumpArm mem (end_p - 1)) (DumpArm_loop mem (end_p - 1 + 4) end_p)"
      by (rule DumpArm_loop_step) simp
    then show ?thesis
      using True by (simp add: DumpArm_loop_done)
  next
    case False
    then have lt: "cur < end_p - 1" using "1.prems" by simp
    have "(end_p - 1 - (cur + 4)) mod 4 = 0" using "1.prems" by presburger
    moreover have "cur + 4 < end_p" using lt "1.prems"(1) by presburger
    ultimately have "DumpArm_loop mem (cur + 4) end_p =
        effect_append (DumpArm_loop mem (cur + 4) (end_p - 1)) (DumpArm mem (end_p - 1))"
      using "1.IH" "1.prems" by simp
    then show ?thesis using lt "1.prems"
      by (simp add: DumpArm_loop_step effect_append_assoc)
  qed
qed

lemma tag_clear: "(x :: int) AND 1 = 0 \<longleftrightarrow> even x"
  by (simp add: and_one_eq mod_2_eq_odd)

lemma tag_set: "(x :: int) AND 1 = 1 \<longleftrightarrow> odd x"
  by (simp add: and_one_eq mod_2_eq_odd)

text \<open>
  Claim C4, as amended. When the start address is even, the dispatcher masks neither
  \<^verbatim>\<open>begin\<close> nor \<^verbatim>\<open>end\<close>: it runs the fixed-width loop up to the given end. A
  range whose end address is odd is walked exactly as the range ending at end plus 1. It
  is walked as the range ending at end minus 1 unless end minus 1 minus begin is a
  non-negative multiple of 4, and then one more unit, at end minus 1, is decoded.
\<close>

theorem Dump_fixed_mode_odd_end:
  assumes "begin_p AND 1 = 0" and "end_p AND 1 = 1"
  shows "DumpArm_loop mem begin_p end_p = Dump mem begin_p end_p
       \<and> Dump mem begin_p end_p = Dump mem begin_p (end_p + 1)
       \<and> ((end_p - 1 - begin_p) mod 4 \<noteq> 0 \<or> end_p \<le> begin_p \<longrightarrow>
            Dump mem begin_p end_p = Dump mem begin_p (end_p - 1))
       \<and> ((end_p - 1 - begin_p) mod 4 = 0 \<and> begin_p < end_p \<longrightarrow>
            Dump mem begin_p end_p =
              effect_append (Dump mem begin_p (end_p - 1)) (DumpArm mem (end_p - 1)))"
proof -
  have e: "even begin_p" "odd end_p" using assms by (simp_all add: tag_clear tag_set)
  have d: "Dump mem begin_p x = DumpArm_loop mem begin_p x" for x
    using assms(1) by (simp add: Dump_def)
  show ?thesis
    unfolding d
    using DumpArm_loop_odd_end [OF e] DumpArm_loop_end_minus_1 [of end_p begin_p mem]
      DumpArm_loop_one_more [of end_p begin_p mem]
    by auto
qed

lemma DumpArm_two_words:
  "DumpArm two_words 0x1000 =
     \<lparr>os = tabs3 @ ''0x1000: 04030201'' @ newline,
      touched = [0x1000, 0x1001, 0x1002, 0x1003]\<rparr>"
  by (simp add: DumpArm_def read_eval show_eval)

lemma Dump_0x1000_0x1001:
  "Dump two_words 0x1000 0x1001 =
     \<lparr>os = tabs3 @ ''0x1000: 04030201'' @ newline,
      touched = [0x1000, 0x1001, 0x1002, 0x1003]\<rparr>"
  by (simp add: Dump_def DumpArm_loop_step DumpArm_loop_done DumpArm_two_words)

lemma Dump_0x1000_0x1002:
  "Dump two_words 0x1000 0x1002 =
     \<lparr>os = tabs3 @ ''0x1000: 04030201'' @ newline,
      touched = [0x1000, 0x1001, 0x1002, 0x1003]\<rparr>"
  by (simp add: Dump_def DumpArm_loop_step DumpArm_loop_done DumpArm_two_words)

lemma Dump_0x1000_0x1000: "Dump two_words 0x1000 0x1000 = \<lparr>os = [], touched = []\<rparr>"
  by (simp add: Dump_def DumpArm_loop_done no_effect_def)

theorem Dump_fixed_mode_odd_end_witness:
  "(0x1000 :: int) AND 1 = 0 \<and> (0x1003 :: int) AND 1 = 1
   \<and> Dump two_words 0x1000 0x1003 = Dump two_words 0x1000 0x1004
   \<and> Dump two_words 0x1000 0x1003 = Dump two_words 0x1000 0x1002
   \<and> (0x1001 :: int) AND 1 = 1
   \<and> Dump two_words 0x1000 0x1001 =
       effect_append (Dump two_words 0x1000 0x1000) (DumpArm two_words 0x1000)"
proof -
  have t: "(0x1000 :: int) AND 1 = 0" "(0x1003 :: int) AND 1 = 1" "(0x1001 :: int) AND 1 = 1"
    by simp_all
  have a: "Dump two_words 0x1000 0x1003 = Dump two_words 0x1000 (0x1003 + 1)"
    "Dump two_words 0x1000 0x1003 = Dump two_words 0x1000 (0x1003 - 1)"
    using Dump_fixed_mode_odd_end [OF t(1) t(2), of two_words] by auto
  have b: "Dump two_words 0x1000 0x1001 =
       effect_append (Dump two_words 0x1000 (0x1001 - 1)) (DumpArm two_words (0x1001 - 1))"
    using Dump_fixed_mode_odd_end [OF t(1) t(3), of two_words] by auto
  show ?thesis using t a b by simp
qed

text \<open>
  Claim C4 as stated fails: with begin 0x1000 and the odd end 0x1001 one unit is decoded,
  with the end 0x1000 none.
\<close>

theorem Dump_fixed_mode_odd_end_counterexample:
  "(0x1000 :: int) AND 1 = 0 \<and> (0x1001 :: int) AND 1 = 1
   \<and> Dump two_words 0x1000 0x1001 =
       \<lparr>os = tabs3 @ ''0x1000: 04030201'' @ newline,
        touched = [0x1000, 0x1001, 0x1002, 0x1003]\<rparr>
   \<and> Dump two_words 0x1000 (0x1001 - 1) = \<lparr>os = [], touched = []\<rparr>
   \<and> Dump two_words 0x1000 0x1001 \<noteq> Dump two_words 0x1000 (0x1001 - 1)"
  by (simp add: Dump_0x1000_0x1001 Dump_0x1000_0x1000)

section \<open>Mode dispatcher: the bytes read\<close>

lemma DumpArm_touched: "touched (DumpArm mem p) = [p, p + 1, p + 2, p + 3]"
  by (simp add: DumpArm_def ReadU32_def Let_def)

lemma DumpArm_loop_touched:
  "set (touched (DumpArm_loop mem cur end_p)) =
     {a. cur \<le> a \<and> a < cur + 4 * ((end_p - cur + 3) div 4)}"
proof (induction mem cur end_p rule: DumpArm_loop.induct)
  case (1 mem cur end_p)
  show ?case
  proof (cases "cur < end_p")
    case True
    define q where "q = (end_p - cur + 3) div 4"
    have q: "1 \<le> q" "(end_p - (cur + 4) + 3) div 4 = q - 1"
      using True unfolding q_def by presburger+
    have "set (touched (DumpArm_loop mem (cur + 4) end_p)) =
            {a. cur + 4 \<le> a \<and> a < cur + 4 + 4 * (q - 1)}"
      using "1.IH" True q by simp
    then have "set (touched (DumpArm_loop mem cur end_p)) =
            {cur, cur + 1, cur + 2, cur + 3} \<union> {a. cur + 4 \<le> a \<and> a < cur + 4 + 4 * (q - 1)}"
      using True by (simp add: DumpArm_loop_step DumpArm_touched)
    also have "\<dots> = {a. cur \<le> a \<and> a < cur + 4 * q}"
      using q(1) by auto
    finally show ?thesis by (simp add: q_def)
  next
    case False
    then have "(end_p - cur + 3) div 4 \<le> 0" by presburger
    then show ?thesis using False by (auto simp: DumpArm_loop_done)
  qed
qed

lemma DumpThumb16_touched_list:
  "touched (fst (DumpThumb16 mem p)) =
     (if is_32bit (Thumb16_instr mem p) then [p, p + 1, p, p + 1, p + 2, p + 3] else [p, p + 1])"
  by (simp add: DumpThumb16_long DumpThumb16_local DumpThumb32_op1 is_32bit_op1 ReadU16_def)

lemma DumpThumb16_touched:
  "set (touched (fst (DumpThumb16 mem p))) =
     {a. p \<le> a \<and> a < p + int (snd (DumpThumb16 mem p))}"
  by (auto simp: DumpThumb16_touched_list DumpThumb16_consumed)

lemma DumpThumb_loop_step:
  "cur < end_p \<Longrightarrow>
   DumpThumb_loop mem cur end_p =
     (effect_append (fst (DumpThumb16 mem cur))
        (fst (DumpThumb_loop mem (cur + int (snd (DumpThumb16 mem cur))) end_p)),
      snd (DumpThumb_loop mem (cur + int (snd (DumpThumb16 mem cur))) end_p))"
  by (subst DumpThumb_loop.simps) (simp add: Let_def)

lemma DumpThumb_loop_done:
  "\<not> cur < end_p \<Longrightarrow> DumpThumb_loop mem cur end_p = (no_effect, cur)"
  by (subst DumpThumb_loop.simps) simp

lemma DumpThumb_loop_stop_ge: "cur \<le> snd (DumpThumb_loop mem cur end_p)"
proof (induction mem cur end_p rule: DumpThumb_loop.induct)
  case (1 mem cur end_p)
  show ?case
  proof (cases "cur < end_p")
    case True
    then have "cur + int (snd (DumpThumb16 mem cur))
        \<le> snd (DumpThumb_loop mem (cur + int (snd (DumpThumb16 mem cur))) end_p)"
      using "1.IH" by simp
    then show ?thesis using True by (simp add: DumpThumb_loop_step)
  next
    case False
    then show ?thesis by (simp add: DumpThumb_loop_done)
  qed
qed

lemma DumpThumb_loop_stop_bounds:
  "even cur \<Longrightarrow> even end_p \<Longrightarrow> cur < end_p \<Longrightarrow>
   end_p \<le> snd (DumpThumb_loop mem cur end_p) \<and> snd (DumpThumb_loop mem cur end_p) \<le> end_p + 2"
proof (induction mem cur end_p rule: DumpThumb_loop.induct)
  case (1 mem cur end_p)
  define n where "n = snd (DumpThumb16 mem cur)"
  have n: "n = 2 \<or> n = 4" by (simp add: n_def DumpThumb16_consumed)
  have le: "cur + 2 \<le> end_p" using "1.prems" by presburger
  have step: "snd (DumpThumb_loop mem cur end_p) = snd (DumpThumb_loop mem (cur + int n) end_p)"
    using "1.prems" by (simp add: DumpThumb_loop_step n_def)
  show ?case
  proof (cases "cur + int n < end_p")
    case True
    moreover have "even (cur + int n)" using n "1.prems" by auto
    ultimately show ?thesis
      using "1.IH" [of "DumpThumb16 mem cur"] "1.prems" step by (simp add: n_def)
  next
    case False
    then have "snd (DumpThumb_loop mem (cur + int n) end_p) = cur + int n"
      by (simp add: DumpThumb_loop_done)
    then show ?thesis using step False le n by auto
  qed
qed

lemma DumpThumb_loop_touched:
  "set (touched (fst (DumpThumb_loop mem cur end_p))) =
     {a. cur \<le> a \<and> a < snd (DumpThumb_loop mem cur end_p)}"
proof (induction mem cur end_p rule: DumpThumb_loop.induct)
  case (1 mem cur end_p)
  show ?case
  proof (cases "cur < end_p")
    case True
    define n where "n = snd (DumpThumb16 mem cur)"
    define rest where "rest = DumpThumb_loop mem (cur + int n) end_p"
    have step: "DumpThumb_loop mem cur end_p =
                  (effect_append (fst (DumpThumb16 mem cur)) (fst rest), snd rest)"
      unfolding rest_def n_def by (rule DumpThumb_loop_step [OF True])
    have "set (touched (fst rest)) = {a. cur + int n \<le> a \<and> a < snd rest}"
      using "1.IH" True by (simp add: n_def rest_def)
    moreover have "cur + int n \<le> snd rest"
      unfolding rest_def by (rule DumpThumb_loop_stop_ge)
    moreover have "set (touched (fst (DumpThumb16 mem cur))) = {a. cur \<le> a \<and> a < cur + int n}"
      unfolding n_def by (rule DumpThumb16_touched)
    ultimately have "set (touched (fst (DumpThumb16 mem cur))) \<union> set (touched (fst rest))
                   = {a. cur \<le> a \<and> a < snd rest}"
      by auto
    then show ?thesis by (simp add: step)
  next
    case False
    then show ?thesis by (simp add: DumpThumb_loop_done)
  qed
qed

lemma even_untag: "even ((x :: int) AND NOT 1)"
  by (simp add: even_and_iff)

text \<open>
  Claim C2, as amended. Every decode step reads exactly the bytes of its unit, and a
  trailing partial unit is decoded whole. In fixed-width mode the bytes read are those from
  \<^verbatim>\<open>begin\<close> up to \<^verbatim>\<open>begin\<close> plus the length rounded up to a multiple of 4: they all lie
  below \<^verbatim>\<open>end\<close> plus 3, and below \<^verbatim>\<open>end\<close> when the length is a multiple of 4. In
  compressed mode the bytes read are those from the masked \<^verbatim>\<open>begin\<close> up to the address
  where the walk stops, which is at most the masked \<^verbatim>\<open>end\<close> plus 2: they all lie below
  the masked \<^verbatim>\<open>end\<close> when the walk stops exactly there.
\<close>

theorem Dump_touched:
  "(begin_p AND 1 = 0 \<longrightarrow>
      set (touched (Dump mem begin_p end_p)) =
        {a. begin_p \<le> a \<and> a < begin_p + 4 * ((end_p - begin_p + 3) div 4)}
      \<and> (\<forall>a \<in> set (touched (Dump mem begin_p end_p)). a < end_p + 3)
      \<and> ((end_p - begin_p) mod 4 = 0 \<longrightarrow>
            (\<forall>a \<in> set (touched (Dump mem begin_p end_p)). a < end_p)))
   \<and> (begin_p AND 1 \<noteq> 0 \<longrightarrow>
      (let b = begin_p AND NOT 1; e = end_p AND NOT 1;
           stop = snd (DumpThumb_loop mem b e)
       in set (touched (Dump mem begin_p end_p)) = {a. b \<le> a \<and> a < stop}
          \<and> (b < e \<longrightarrow> e \<le> stop \<and> stop \<le> e + 2)
          \<and> (\<not> b < e \<longrightarrow> stop = b)
          \<and> (\<forall>a \<in> set (touched (Dump mem begin_p end_p)). a < e + 2)
          \<and> (stop = e \<longrightarrow> (\<forall>a \<in> set (touched (Dump mem begin_p end_p)). a < e))))"
proof (intro conjI impI)
  assume t: "begin_p AND 1 = 0"
  then have d: "Dump mem begin_p end_p = DumpArm_loop mem begin_p end_p"
    by (simp add: Dump_def)
  show s: "set (touched (Dump mem begin_p end_p)) =
        {a. begin_p \<le> a \<and> a < begin_p + 4 * ((end_p - begin_p + 3) div 4)}"
    by (simp add: d DumpArm_loop_touched)
  have "begin_p + 4 * ((end_p - begin_p + 3) div 4) \<le> end_p + 3" by presburger
  then show "\<forall>a \<in> set (touched (Dump mem begin_p end_p)). a < end_p + 3"
    unfolding s by auto
  assume "(end_p - begin_p) mod 4 = 0"
  then have "begin_p + 4 * ((end_p - begin_p + 3) div 4) = end_p" by presburger
  then show "\<forall>a \<in> set (touched (Dump mem begin_p end_p)). a < end_p"
    unfolding s by auto
next
  assume t: "begin_p AND 1 \<noteq> 0"
  define b where "b = begin_p AND NOT 1"
  define e where "e = end_p AND NOT 1"
  define stop where "stop = snd (DumpThumb_loop mem b e)"
  have d: "Dump mem begin_p end_p = fst (DumpThumb_loop mem b e)"
    using t by (simp add: Dump_def b_def e_def)
  have ev: "even b" "even e" unfolding b_def e_def by (rule even_untag)+
  have s: "set (touched (Dump mem begin_p end_p)) = {a. b \<le> a \<and> a < stop}"
    by (simp add: d stop_def DumpThumb_loop_touched)
  have bounds: "e \<le> stop \<and> stop \<le> e + 2" if "b < e"
    using DumpThumb_loop_stop_bounds [OF ev that] by (simp add: stop_def)
  have empty: "stop = b" if "\<not> b < e"
    using that by (simp add: stop_def DumpThumb_loop_done)
  have all2: "\<forall>a \<in> set (touched (Dump mem begin_p end_p)). a < e + 2"
  proof (cases "b < e")
    case True
    then show ?thesis unfolding s using bounds by auto
  next
    case False
    then show ?thesis unfolding s using empty by auto
  qed
  have exact: "\<forall>a \<in> set (touched (Dump mem begin_p end_p)). a < e" if "stop = e"
    unfolding s using that by auto
  have "set (touched (Dump mem begin_p end_p)) = {a. b \<le> a \<and> a < stop}
          \<and> (b < e \<longrightarrow> e \<le> stop \<and> stop \<le> e + 2)
          \<and> (\<not> b < e \<longrightarrow> stop = b)
          \<and> (\<forall>a \<in> set (touched (Dump mem begin_p end_p)). a < e + 2)
          \<and> (stop = e \<longrightarrow> (\<forall>a \<in> set (touched (Dump mem begin_p end_p)). a < e))"
    by (intro conjI impI s bounds [THEN conjunct1] bounds [THEN conjunct2] empty all2 exact)
  then show "let b = begin_p AND NOT 1; e = end_p AND NOT 1;
           stop = snd (DumpThumb_loop mem b e)
       in set (touched (Dump mem begin_p end_p)) = {a. b \<le> a \<and> a < stop}
          \<and> (b < e \<longrightarrow> e \<le> stop \<and> stop \<le> e + 2)
          \<and> (\<not> b < e \<longrightarrow> stop = b)
          \<and> (\<forall>a \<in> set (touched (Dump mem begin_p end_p)). a < e + 2)
          \<and> (stop = e \<longrightarrow> (\<forall>a \<in> set (touched (Dump mem begin_p end_p)). a < e))"
    unfolding Let_def b_def e_def stop_def .
qed

lemma Thumb16_instr_BLX_0x1000:
  "Thumb16_instr blx_unit 0x1000 = 0xF000"
  by (simp add: read_eval)

lemma is_32bit_0xF000: "is_32bit 0xF000"
  by (simp add: is_32bit_def)

lemma touched_Dump_thumb_short_range:
  "touched (Dump blx_unit 0x1001 0x1003) =
     [0x1000, 0x1001, 0x1000, 0x1001, 0x1002, 0x1003]"
  by (simp add: Dump_def DumpThumb_loop_step DumpThumb_loop_done DumpThumb16_touched_list
        DumpThumb16_consumed Thumb16_instr_BLX_0x1000 is_32bit_0xF000)

lemma DumpThumb_loop_whole_unit:
  "DumpThumb_loop blx_unit 0x1000 0x1004 =
     (fst (DumpThumb16 blx_unit 0x1000), 0x1004)"
  by (simp add: DumpThumb_loop_step DumpThumb_loop_done DumpThumb16_consumed
        Thumb16_instr_BLX_0x1000 is_32bit_0xF000)

lemma touched_Dump_thumb_whole_unit:
  "touched (Dump blx_unit 0x1001 0x1005) =
     [0x1000, 0x1001, 0x1000, 0x1001, 0x1002, 0x1003]"
  by (simp add: Dump_def DumpThumb_loop_whole_unit DumpThumb16_touched_list
        Thumb16_instr_BLX_0x1000 is_32bit_0xF000)

lemma touched_Dump_arm_two_units:
  "touched (Dump two_words 0x1000 0x1008) =
     [0x1000, 0x1001, 0x1002, 0x1003, 0x1004, 0x1005, 0x1006, 0x1007]"
  by (simp add: Dump_def DumpArm_loop_step DumpArm_loop_done DumpArm_touched)

theorem Dump_touched_witness:
  "(0x1000 :: int) AND 1 = 0 \<and> ((0x1008 :: int) - 0x1000) mod 4 = 0
   \<and> touched (Dump two_words 0x1000 0x1008) =
       [0x1000, 0x1001, 0x1002, 0x1003, 0x1004, 0x1005, 0x1006, 0x1007]
   \<and> list_all (\<lambda>a. a < 0x1008) (touched (Dump two_words 0x1000 0x1008))
   \<and> (0x1001 :: int) AND 1 \<noteq> 0
   \<and> (0x1001 :: int) AND NOT 1 = 0x1000 \<and> (0x1005 :: int) AND NOT 1 = 0x1004
   \<and> snd (DumpThumb_loop blx_unit 0x1000 0x1004) = 0x1004
   \<and> touched (Dump blx_unit 0x1001 0x1005) =
       [0x1000, 0x1001, 0x1000, 0x1001, 0x1002, 0x1003]
   \<and> list_all (\<lambda>a. a < 0x1004)
        (touched (Dump blx_unit 0x1001 0x1005))"
proof -
  have t: "(0x1000 :: int) AND 1 = 0" "((0x1008 :: int) - 0x1000) mod 4 = 0"
    "(0x1001 :: int) AND 1 \<noteq> 0"
    by simp_all
  have u: "(0x1001 :: int) AND NOT 1 = 0x1000" "(0x1005 :: int) AND NOT 1 = 0x1004"
    by simp_all
  have stop: "snd (DumpThumb_loop blx_unit 0x1000 0x1004)
                = 0x1004"
    by (simp add: DumpThumb_loop_whole_unit)
  have "\<forall>a \<in> set (touched (Dump two_words 0x1000 0x1008)). a < 0x1008"
    using Dump_touched [of "0x1000" two_words "0x1008"] t(1) t(2) by blast
  then have a: "list_all (\<lambda>a. a < 0x1008) (touched (Dump two_words 0x1000 0x1008))"
    by (simp only: list_all_iff)
  have "\<forall>a \<in> set (touched (Dump blx_unit 0x1001 0x1005)).
          a < 0x1004"
    using Dump_touched [of "0x1001" blx_unit "0x1005",
        unfolded Let_def u] t(3) stop
    by blast
  then have b: "list_all (\<lambda>a. a < 0x1004)
        (touched (Dump blx_unit 0x1001 0x1005))"
    by (simp only: list_all_iff)
  show ?thesis
    by (intro conjI t u stop a b touched_Dump_arm_two_units touched_Dump_thumb_whole_unit)
qed

text \<open>
  Claim C2 as stated fails. In fixed-width mode the range from 0x1000 to 0x1002 makes the
  decoder read the bytes at 0x1002 and 0x1003. In compressed mode the range from 0x1001 to
  0x1003 (masked: 0x1000 to 0x1002), holding the first half of a 32-bit encoding, makes
  the long decoder read the bytes at 0x1002 and 0x1003.
\<close>

theorem Dump_touched_counterexample:
  "(0x1000 :: int) AND 1 = 0 \<and> ((0x1002 :: int) - 0x1000) mod 4 \<noteq> 0
   \<and> touched (Dump two_words 0x1000 0x1002) = [0x1000, 0x1001, 0x1002, 0x1003]
   \<and> 0x1002 \<in> set (touched (Dump two_words 0x1000 0x1002))
   \<and> 0x1003 \<in> set (touched (Dump two_words 0x1000 0x1002))
   \<and> (0x1001 :: int) AND 1 \<noteq> 0
   \<and> (0x1001 :: int) AND NOT 1 = 0x1000 \<and> (0x1003 :: int) AND NOT 1 = 0x1002
   \<and> touched (Dump blx_unit 0x1001 0x1003) =
       [0x1000, 0x1001, 0x1000, 0x1001, 0x1002, 0x1003]
   \<and> 0x1002 \<in> set (touched (Dump blx_unit 0x1001 0x1003))
   \<and> 0x1003 \<in> set (touched (Dump blx_unit 0x1001 0x1003))"
  by (simp add: Dump_0x1000_0x1002 touched_Dump_thumb_short_range)

end
